theory Spec2Isabelle
  imports Main
begin

section \<open>The command tree\<close>

text \<open>
  Modelled from the spec: the declarations of \<^verbatim>\<open>parser.h\<close> (the structs
  \<^verbatim>\<open>simple_command\<close> and \<^verbatim>\<open>command\<close>, the builtin codes and
  \<^verbatim>\<open>is_relative\<close>) are not part of \<^verbatim>\<open>shell.c\<close>. The fields are the ones
  \<^verbatim>\<open>shell.c\<close> reads: \<^verbatim>\<open>in\<close>, \<^verbatim>\<open>out\<close>, \<^verbatim>\<open>err\<close> (a null pointer is
  \<open>None\<close>), \<^verbatim>\<open>tokens\<close> (a null-terminated array, here the list of the
  entries before the terminator) and \<^verbatim>\<open>builtin\<close>.
\<close>

datatype builtin_kind = BUILTIN_NONE | BUILTIN_CD | BUILTIN_EXIT

record simple_command =
  s_in :: "string option"
  s_out :: "string option"
  s_err :: "string option"
  tokens :: "string list"
  builtin :: builtin_kind

text \<open>
  A \<^verbatim>\<open>command\<close> either carries a simple command (\<^verbatim>\<open>scmd\<close> is set) or an
  operator with the two sub-commands \<^verbatim>\<open>cmd1\<close> and \<^verbatim>\<open>cmd2\<close>.
\<close>

datatype command = Leaf simple_command | Node string command command

fun leaves :: "command \<Rightarrow> nat" where
  "leaves (Leaf s) = 1"
| "leaves (Node oper cmd1 cmd2) = leaves cmd1 + leaves cmd2"

fun nodes :: "command \<Rightarrow> nat" where
  "nodes (Leaf s) = 0"
| "nodes (Node oper cmd1 cmd2) = Suc (nodes cmd1 + nodes cmd2)"

text \<open>The simple commands of a tree, from left to right.\<close>

fun leaf_commands :: "command \<Rightarrow> simple_command list" where
  "leaf_commands (Leaf s) = [s]"
| "leaf_commands (Node oper cmd1 cmd2) = leaf_commands cmd1 @ leaf_commands cmd2"

text \<open>Every operator of the tree is the pipe operator.\<close>

fun piped :: "command \<Rightarrow> bool" where
  "piped (Leaf s) = True"
| "piped (Node oper cmd1 cmd2) = (oper = ''|'' \<and> piped cmd1 \<and> piped cmd2)"

text \<open>
  Modelled from the spec: \<^verbatim>\<open>is_relative\<close> belongs to the parser, which is not
  part of \<^verbatim>\<open>shell.c\<close>; a path is absolute when it starts with the separator.
\<close>

definition is_relative :: "string \<Rightarrow> bool" where
  "is_relative path = (case path of [] \<Rightarrow> True | c # cs \<Rightarrow> c \<noteq> CHR ''/'')"


section \<open>Processes and system calls\<close>

text \<open>
  A process is named by the path of forks that leads to it from the interpreter: the
  child that a process \<open>q\<close> forks when its trace has \<open>n\<close> events is \<open>q @ [n]\<close>.
\<close>

type_synonym pid = "nat list"

datatype oflag = O_RDONLY | O_RDWR | O_CREAT | O_TRUNC

text \<open>What a descriptor refers to: something the interpreter was started with, a file
  opened by path with its flags and creation mode, or one end of a pipe (named by the
  process that created it and the position of the call in its trace).\<close>

datatype ofile =
    Inherited nat
  | File string "oflag set" "nat option"
  | PipeRead pid nat
  | PipeWrite pid nat

datatype syscall =
    Pipe
  | Fork
  | Open "string option" "oflag set" "nat option"
  | Dup2 nat nat
  | Close nat
  | Execvp "string option" "string list"
  | Wait
  | Waitpid pid
  | Chdir string
  | Getcwd nat

datatype sysret = RFail | ROk | RFd nat | RPipe nat nat | RPid pid | RDir string

datatype event = Sys syscall sysret | Perror string | Fprintf_stderr string

text \<open>How a process stops running this program: \<^verbatim>\<open>exit\<close> with a status, a
  successful \<^verbatim>\<open>execvp\<close>, or a write outside an array.\<close>

datatype ending = Exited int | Execed "string list" | Crashed

record pentry =
  pe_pid :: pid
  pe_trace :: "event list"
  pe_end :: ending

text \<open>The state of one process: its descriptor table (index = descriptor), its
  working directory, the events it has produced, and the processes that descend from it
  with their complete traces.\<close>

record proc =
  pid :: pid
  fds :: "ofile option list"
  cwd :: string
  trace :: "event list"
  procs :: "pentry list"

text \<open>A function either returns a value to its caller or ends the process.\<close>

datatype 'a result = Returns 'a proc | Halts ending proc

text \<open>The environment decides which calls fail (by process and position in its
  trace) and where \<^verbatim>\<open>chdir\<close> leads (from a working directory and a path;
  \<open>None\<close> when the target does not exist or may not be entered).\<close>

record env =
  fails :: "pid \<Rightarrow> nat \<Rightarrow> bool"
  chdir_target :: "string \<Rightarrow> string \<Rightarrow> string option"

definition log :: "event \<Rightarrow> proc \<Rightarrow> proc" where
  "log e p = p\<lparr>trace := trace p @ [e]\<rparr>"

definition failing :: "env \<Rightarrow> proc \<Rightarrow> bool" where
  "failing env p = fails env (pid p) (length (trace p))"

definition perror :: "string \<Rightarrow> proc \<Rightarrow> proc" where
  "perror s p = log (Perror s) p"

definition die :: "string \<Rightarrow> proc \<Rightarrow> ending \<times> proc" where
  "die s p = (Exited 1, perror s p)"

definition halt :: "ending \<times> proc \<Rightarrow> 'a result" where
  "halt ep = Halts (fst ep) (snd ep)"

subsection \<open>The descriptor table\<close>

definition fd_lookup :: "ofile option list \<Rightarrow> nat \<Rightarrow> ofile option" where
  "fd_lookup t n = (if n < length t then t ! n else None)"

definition fd_set :: "ofile option list \<Rightarrow> nat \<Rightarrow> ofile option \<Rightarrow> ofile option list" where
  "fd_set t n v = (t @ replicate (Suc n - length t) None)[n := v]"

text \<open>The lowest descriptor that is not open.\<close>

definition fd_alloc :: "ofile option list \<Rightarrow> nat" where
  "fd_alloc t = length (takeWhile (\<lambda>x. x \<noteq> None) t)"

definition STDIN :: nat where "STDIN = 0"
definition STDOUT :: nat where "STDOUT = 1"
definition STDERR :: nat where "STDERR = 2"

subsection \<open>System calls\<close>

text \<open>\<^verbatim>\<open>open\<close>: fails for a null path, or when the environment says so; otherwise
  the lowest free descriptor refers to the file.\<close>

definition sys_open ::
  "env \<Rightarrow> string option \<Rightarrow> oflag set \<Rightarrow> nat option \<Rightarrow> proc \<Rightarrow> nat option \<times> proc" where
  "sys_open env path flags mode p =
     (case path of
        None \<Rightarrow> (None, log (Sys (Open path flags mode) RFail) p)
      | Some f \<Rightarrow>
          if failing env p then (None, log (Sys (Open path flags mode) RFail) p)
          else let fd = fd_alloc (fds p)
               in (Some fd, log (Sys (Open path flags mode) (RFd fd))
                      (p\<lparr>fds := fd_set (fds p) fd (Some (File f flags mode))\<rparr>)))"

definition sys_dup2 :: "env \<Rightarrow> nat \<Rightarrow> nat \<Rightarrow> proc \<Rightarrow> bool \<times> proc" where
  "sys_dup2 env oldfd newfd p =
     (if failing env p \<or> fd_lookup (fds p) oldfd = None
      then (False, log (Sys (Dup2 oldfd newfd) RFail) p)
      else (True, log (Sys (Dup2 oldfd newfd) ROk)
              (p\<lparr>fds := fd_set (fds p) newfd (fd_lookup (fds p) oldfd)\<rparr>)))"

definition sys_close :: "env \<Rightarrow> nat \<Rightarrow> proc \<Rightarrow> bool \<times> proc" where
  "sys_close env fd p =
     (if failing env p \<or> fd_lookup (fds p) fd = None
      then (False, log (Sys (Close fd) RFail) p)
      else (True, log (Sys (Close fd) ROk) (p\<lparr>fds := fd_set (fds p) fd None\<rparr>)))"

definition sys_pipe :: "env \<Rightarrow> proc \<Rightarrow> (nat \<times> nat) option \<times> proc" where
  "sys_pipe env p =
     (if failing env p then (None, log (Sys Pipe RFail) p)
      else let n = length (trace p);
               r = fd_alloc (fds p);
               t = fd_set (fds p) r (Some (PipeRead (pid p) n));
               w = fd_alloc t
           in (Some (r, w), log (Sys Pipe (RPipe r w))
                 (p\<lparr>fds := fd_set t w (Some (PipeWrite (pid p) n))\<rparr>)))"

text \<open>\<^verbatim>\<open>fork\<close>: the child starts from a copy of the parent (same descriptors and
  working directory) and runs \<open>child\<close> to its end; the parent gets the child's
  identity, and the child and its descendants are entered in the parent's table.\<close>

definition sys_fork :: "env \<Rightarrow> (proc \<Rightarrow> ending \<times> proc) \<Rightarrow> proc \<Rightarrow> pid option \<times> proc" where
  "sys_fork env child p =
     (if failing env p then (None, log (Sys Fork RFail) p)
      else let c = pid p @ [length (trace p)];
               eq = child (p\<lparr>pid := c, trace := [], procs := []\<rparr>);
               entry = \<lparr>pe_pid = c, pe_trace = trace (snd eq), pe_end = fst eq\<rparr>
           in (Some c, log (Sys Fork (RPid c))
                 (p\<lparr>procs := procs p @ entry # procs (snd eq)\<rparr>)))"

definition sys_wait :: "env \<Rightarrow> proc \<Rightarrow> bool \<times> proc" where
  "sys_wait env p =
     (if failing env p then (False, log (Sys Wait RFail) p)
      else (True, log (Sys Wait ROk) p))"

definition sys_waitpid :: "env \<Rightarrow> pid \<Rightarrow> proc \<Rightarrow> bool \<times> proc" where
  "sys_waitpid env c p =
     (if failing env p then (False, log (Sys (Waitpid c) RFail) p)
      else (True, log (Sys (Waitpid c) ROk) p))"

definition sys_chdir :: "env \<Rightarrow> string \<Rightarrow> proc \<Rightarrow> bool \<times> proc" where
  "sys_chdir env path p =
     (case chdir_target env (cwd p) path of
        None \<Rightarrow> (False, log (Sys (Chdir path) RFail) p)
      | Some d \<Rightarrow> (True, log (Sys (Chdir path) ROk) (p\<lparr>cwd := d\<rparr>)))"

text \<open>\<^verbatim>\<open>getcwd(buf, size)\<close>: fails when the directory name and its terminator do
  not fit in \<open>sz\<close> bytes, or when the environment says so.\<close>

definition sys_getcwd :: "env \<Rightarrow> nat \<Rightarrow> proc \<Rightarrow> string option \<times> proc" where
  "sys_getcwd env sz p =
     (if failing env p \<or> sz < length (cwd p) + 1
      then (None, log (Sys (Getcwd sz) RFail) p)
      else (Some (cwd p), log (Sys (Getcwd sz) (RDir (cwd p))) p))"

text \<open>\<^verbatim>\<open>strncat(dest, src, n)\<close> on an array of \<open>cap\<close> bytes that holds the string
  \<open>dest\<close>: at most \<open>n\<close> characters of \<open>src\<close> and a terminator are appended;
  \<open>None\<close> when that writes past the array.\<close>

definition strncat :: "nat \<Rightarrow> string \<Rightarrow> string \<Rightarrow> nat \<Rightarrow> string option" where
  "strncat cap dest src n =
     (let r = dest @ take n src in if length r + 1 \<le> cap then Some r else None)"


section \<open>The shell\<close>

definition EXIT_SUCCESS :: int where "EXIT_SUCCESS = 0"
definition EXIT_FAILURE :: int where "EXIT_FAILURE = 1"
definition MAX_DIRNAME :: nat where "MAX_DIRNAME = 100"

text \<open>The octal constant \<^verbatim>\<open>0664\<close>.\<close>

definition mode_0664 :: nat where "mode_0664 = 6 * 8 * 8 + 6 * 8 + 4"

text \<open>\<^verbatim>\<open>MAX_DIRNAME-strlen(dir)-1\<close> is computed in \<^verbatim>\<open>size_t\<close>: it wraps
  around at \<open>2 ^ 64\<close>.\<close>

definition room :: "string \<Rightarrow> nat" where
  "room dir = nat ((int MAX_DIRNAME - int (length dir) - 1) mod 2 ^ 64)"

text \<open>\<^verbatim>\<open>execute_cd\<close>, lines 88 to 130.\<close>

definition execute_cd :: "env \<Rightarrow> string list \<Rightarrow> proc \<Rightarrow> int result" where
  "execute_cd env words p =
     (if length words < 2 \<or> words ! 0 \<noteq> ''cd'' then Returns EXIT_FAILURE p
      else if \<not> is_relative (words ! 1) then
        (case sys_chdir env (words ! 1) p of
           (False, p1) \<Rightarrow> Returns EXIT_FAILURE p1
         | (True, p1) \<Rightarrow> Returns EXIT_SUCCESS p1)
      else
        (case sys_getcwd env (MAX_DIRNAME - 2) p of
           (None, p1) \<Rightarrow> Returns EXIT_FAILURE p1
         | (Some dir, p1) \<Rightarrow>
             (case strncat MAX_DIRNAME dir ''/'' 1 of
                None \<Rightarrow> Halts Crashed p1
              | Some dir1 \<Rightarrow>
                  (case strncat MAX_DIRNAME dir1 (words ! 1) (room dir1) of
                     None \<Rightarrow> Halts Crashed p1
                   | Some dir2 \<Rightarrow>
                       (case sys_chdir env dir2 p1 of
                          (False, p2) \<Rightarrow> Returns EXIT_FAILURE p2
                        | (True, p2) \<Rightarrow> Returns EXIT_SUCCESS p2)))))"

text \<open>\<^verbatim>\<open>execute_command\<close>, lines 141 to 161: \<^verbatim>\<open>execvp\<close> returns only when it
  fails, and then the process exits. With no token at all the program name is a null
  pointer, which \<^verbatim>\<open>execvp\<close> reads.\<close>

definition execute_command :: "env \<Rightarrow> string list \<Rightarrow> proc \<Rightarrow> ending \<times> proc" where
  "execute_command env toks p =
     (case toks of
        [] \<Rightarrow> (Crashed, log (Sys (Execvp None toks) RFail) p)
      | t0 # ts \<Rightarrow>
          if failing env p
          then die t0 (log (Sys (Execvp (Some t0) toks) RFail) p)
          else (Execed toks, log (Sys (Execvp (Some t0) toks) ROk) p))"

text \<open>\<^verbatim>\<open>execute_nonbuiltin\<close>, lines 167 to 261. The third block opens
  \<^verbatim>\<open>s->in\<close> and reports \<^verbatim>\<open>s->err\<close>, as the source does.\<close>

definition execute_nonbuiltin :: "env \<Rightarrow> simple_command \<Rightarrow> proc \<Rightarrow> ending \<times> proc" where
  "execute_nonbuiltin env s p =
     (let r1 =
        (case s_in s of
           None \<Rightarrow> Inr p
         | Some inpath \<Rightarrow>
             (case sys_open env (s_in s) {O_RDONLY} None p of
                (None, p1) \<Rightarrow> Inl (die inpath p1)
              | (Some fd, p1) \<Rightarrow>
                  (case sys_dup2 env fd STDIN p1 of
                     (False, p2) \<Rightarrow> Inl (die ''dup2'' p2)
                   | (True, p2) \<Rightarrow>
                       (case sys_close env fd p2 of
                          (False, p3) \<Rightarrow> Inl (die ''close'' p3)
                        | (True, p3) \<Rightarrow> Inr p3))))
      in case r1 of
        Inl dead \<Rightarrow> dead
      | Inr pa \<Rightarrow>
     (let r2 =
        (case s_out s of
           None \<Rightarrow> Inr pa
         | Some outpath \<Rightarrow>
             (case sys_open env (s_out s) {O_CREAT, O_RDWR, O_TRUNC} (Some mode_0664) pa of
                (None, p1) \<Rightarrow> Inl (die outpath p1)
              | (Some fd, p1) \<Rightarrow>
                  (case sys_dup2 env fd STDOUT p1 of
                     (False, p2) \<Rightarrow> Inl (die ''dup2'' p2)
                   | (True, p2) \<Rightarrow>
                       (case sys_close env fd p2 of
                          (False, p3) \<Rightarrow> Inl (die ''close'' p3)
                        | (True, p3) \<Rightarrow> Inr p3))))
      in case r2 of
        Inl dead \<Rightarrow> dead
      | Inr pb \<Rightarrow>
     (let r3 =
        (case s_err s of
           None \<Rightarrow> Inr pb
         | Some errpath \<Rightarrow>
             (case sys_open env (s_in s) {O_CREAT, O_RDWR, O_TRUNC} (Some mode_0664) pb of
                (None, p1) \<Rightarrow> Inl (die errpath p1)
              | (Some fd, p1) \<Rightarrow>
                  (case sys_dup2 env fd STDERR p1 of
                     (False, p2) \<Rightarrow> Inl (die ''dup2'' p2)
                   | (True, p2) \<Rightarrow>
                       (case sys_close env fd p2 of
                          (False, p3) \<Rightarrow> Inl (die ''close'' p3)
                        | (True, p3) \<Rightarrow> Inr p3))))
      in case r3 of
        Inl dead \<Rightarrow> dead
      | Inr pc \<Rightarrow> execute_command env (tokens s) pc)))"

text \<open>\<^verbatim>\<open>execute_simple_command\<close>, lines 267 to 320. The child runs
  \<^verbatim>\<open>execute_nonbuiltin\<close>; the parent reports a failed \<^verbatim>\<open>fork\<close> or
  \<^verbatim>\<open>wait\<close> and returns 0 all the same.\<close>

definition execute_simple_command :: "env \<Rightarrow> simple_command \<Rightarrow> proc \<Rightarrow> int result" where
  "execute_simple_command env cmd p =
     (if builtin cmd = BUILTIN_EXIT then Returns (- 1) p
      else if builtin cmd = BUILTIN_CD then
        (case execute_cd env (tokens cmd) p of
           Halts e p1 \<Rightarrow> Halts e p1
         | Returns r p1 \<Rightarrow>
             if r = EXIT_FAILURE then
               (if length (tokens cmd) < 2
                then Returns 0 (log (Fprintf_stderr (''Path expected after cd'' @ [CHR 0x0A])) p1)
                else Returns 0 (perror (tokens cmd ! 1) p1))
             else Returns 0 p1)
      else
        (case sys_fork env (execute_nonbuiltin env cmd) p of
           (None, p1) \<Rightarrow> Returns 0 (perror ''fork'' p1)
         | (Some c, p1) \<Rightarrow>
             (case sys_wait env p1 of
                (False, p2) \<Rightarrow> Returns 0 (perror ''wait'' p2)
              | (True, p2) \<Rightarrow> Returns 0 p2)))"

text \<open>A child of the pipeline calls \<^verbatim>\<open>exit(0)\<close> when
  \<^verbatim>\<open>execute_complex_command\<close> returns.\<close>

fun then_exit :: "int \<Rightarrow> 'a result \<Rightarrow> ending \<times> proc" where
  "then_exit n (Returns v p) = (Exited n, p)"
| "then_exit n (Halts e p) = (e, p)"

text \<open>\<^verbatim>\<open>execute_complex_command\<close>, lines 327 to 474. A node with a simple
  command runs it with \<^verbatim>\<open>execute_nonbuiltin\<close> whatever its builtin code is.\<close>

fun execute_complex_command :: "env \<Rightarrow> command \<Rightarrow> proc \<Rightarrow> int result" where
  "execute_complex_command env (Leaf s) p = halt (execute_nonbuiltin env s p)"
| "execute_complex_command env (Node oper cmd1 cmd2) p =
     (if oper = ''|'' then
        (case sys_pipe env p of
           (None, p1) \<Rightarrow> halt (die ''pipe'' p1)
         | (Some (r, w), p1) \<Rightarrow>
        (case sys_fork env
           (\<lambda>q. case sys_close env r q of
                   (False, q1) \<Rightarrow> die ''close'' q1
                 | (True, q1) \<Rightarrow>
                (case sys_dup2 env w STDOUT q1 of
                   (False, q2) \<Rightarrow> die ''dup2'' q2
                 | (True, q2) \<Rightarrow>
                (case sys_close env w q2 of
                   (False, q3) \<Rightarrow> die ''close'' q3
                 | (True, q3) \<Rightarrow> then_exit 0 (execute_complex_command env cmd1 q3))))
           p1 of
           (None, p2) \<Rightarrow> halt (die ''fork'' p2)
         | (Some pid1, p2) \<Rightarrow>
        (case sys_fork env
           (\<lambda>q. case sys_close env w q of
                   (False, q1) \<Rightarrow> die ''close'' q1
                 | (True, q1) \<Rightarrow>
                (case sys_dup2 env r STDIN q1 of
                   (False, q2) \<Rightarrow> die ''dup2'' q2
                 | (True, q2) \<Rightarrow>
                (case sys_close env r q2 of
                   (False, q3) \<Rightarrow> die ''close'' q3
                 | (True, q3) \<Rightarrow> then_exit 0 (execute_complex_command env cmd2 q3))))
           p2 of
           (None, p3) \<Rightarrow> halt (die ''fork'' p3)
         | (Some pid2, p3) \<Rightarrow>
        (case sys_close env r p3 of
           (False, p4) \<Rightarrow> halt (die ''close'' p4)
         | (True, p4) \<Rightarrow>
        (case sys_close env w p4 of
           (False, p5) \<Rightarrow> halt (die ''close'' p5)
         | (True, p5) \<Rightarrow>
        (case sys_waitpid env pid1 p5 of
           (False, p6) \<Rightarrow> halt (die ''waitpid'' p6)
         | (True, p6) \<Rightarrow>
        (case sys_waitpid env pid2 p6 of
           (False, p7) \<Rightarrow> halt (die ''waitpid'' p7)
         | (True, p7) \<Rightarrow> Returns 0 p7)))))))
      else Returns 0 p)"

text \<open>One turn of the loop of \<^verbatim>\<open>main\<close>, lines 63 to 75, on the command that the
  parser built: a command with \<^verbatim>\<open>scmd\<close> set goes to
  \<^verbatim>\<open>execute_simple_command\<close>, any other to \<^verbatim>\<open>execute_complex_command\<close>.\<close>

definition dispatch :: "env \<Rightarrow> command \<Rightarrow> proc \<Rightarrow> int result" where
  "dispatch env cmd p =
     (case cmd of
        Leaf s \<Rightarrow> execute_simple_command env s p
      | Node oper cmd1 cmd2 \<Rightarrow> execute_complex_command env cmd p)"

text \<open>The loop of \<^verbatim>\<open>main\<close> on the commands of the lines read so far: exit code
  \<open>- 1\<close> leaves the loop and \<^verbatim>\<open>main\<close> returns 0, any other code goes on with the
  next line. The result is \<open>Inl p\<close> while the loop is waiting for the next line in
  state \<open>p\<close>, and \<open>Inr\<close> of the result of \<^verbatim>\<open>main\<close> once it has ended.\<close>

fun main_loop :: "env \<Rightarrow> command list \<Rightarrow> proc \<Rightarrow> proc + int result" where
  "main_loop env [] p = Inl p"
| "main_loop env (cmd # rest) p =
     (case dispatch env cmd p of
        Halts e p1 \<Rightarrow> Inr (Halts e p1)
      | Returns exitcode p1 \<Rightarrow>
          if exitcode = - 1 then Inr (Returns 0 p1) else main_loop env rest p1)"


section \<open>Observations on results and traces\<close>

fun returned :: "'a result \<Rightarrow> 'a option" where
  "returned (Returns v p) = Some v"
| "returned (Halts e p) = None"

fun final :: "'a result \<Rightarrow> proc" where
  "final (Returns v p) = p"
| "final (Halts e p) = p"

text \<open>The children that a trace forked, and those it waited for with success.\<close>

fun forked :: "event list \<Rightarrow> pid list" where
  "forked [] = []"
| "forked (Sys Fork (RPid c) # es) = c # forked es"
| "forked (e # es) = forked es"

fun waited :: "event list \<Rightarrow> pid list" where
  "waited [] = []"
| "waited (Sys (Waitpid c) ROk # es) = c # waited es"
| "waited (e # es) = waited es"

text \<open>The pipes that a trace created.\<close>

fun pipes :: "event list \<Rightarrow> (nat \<times> nat) list" where
  "pipes [] = []"
| "pipes (Sys Pipe (RPipe r w) # es) = (r, w) # pipes es"
| "pipes (e # es) = pipes es"


text \<open>The result of a function seen as the way the process ended, if it did.\<close>

fun ending_of :: "'a result \<Rightarrow> ending option" where
  "ending_of (Returns v p) = None"
| "ending_of (Halts e p) = Some e"

text \<open>The calls that set up redirection and piping, and their failures.\<close>

fun setup_call :: "syscall \<Rightarrow> bool" where
  "setup_call Pipe = True"
| "setup_call Fork = True"
| "setup_call (Open path flags mode) = True"
| "setup_call (Dup2 oldfd newfd) = True"
| "setup_call (Close fd) = True"
| "setup_call c = False"

fun setup_failure :: "event \<Rightarrow> bool" where
  "setup_failure (Sys c RFail) = setup_call c"
| "setup_failure e = False"

text \<open>Every failed setup call of the trace is followed by one \<^verbatim>\<open>perror\<close> line,
  which ends the trace, and the process has exited with status 1.\<close>

fun fatal_failures :: "event list \<Rightarrow> ending option \<Rightarrow> bool" where
  "fatal_failures [] e = True"
| "fatal_failures (x # xs) e =
     (if setup_failure x
      then (case xs of [Perror m] \<Rightarrow> e = Some (Exited 1) | _ \<Rightarrow> False)
      else fatal_failures xs e)"

text \<open>Events of redirection: \<^verbatim>\<open>open\<close>, \<^verbatim>\<open>dup2\<close>, \<^verbatim>\<open>close\<close> and
  \<^verbatim>\<open>perror\<close>.\<close>

fun plain :: "event \<Rightarrow> bool" where
  "plain (Sys (Open path flags mode) r) = True"
| "plain (Sys (Dup2 oldfd newfd) r) = True"
| "plain (Sys (Close fd) r) = True"
| "plain (Perror m) = True"
| "plain e = False"

fun exec_attempt :: "event \<Rightarrow> bool" where
  "exec_attempt (Sys (Execvp file argv) r) = True"
| "exec_attempt e = False"

fun fork_attempt :: "event \<Rightarrow> bool" where
  "fork_attempt (Sys Fork r) = True"
| "fork_attempt e = False"

fun is_dup2 :: "event \<Rightarrow> bool" where
  "is_dup2 (Sys (Dup2 oldfd newfd) r) = True"
| "is_dup2 e = False"

text \<open>The descriptors that a trace closed, or tried to.\<close>

fun closes :: "event list \<Rightarrow> nat list" where
  "closes [] = []"
| "closes (Sys (Close fd) r # es) = fd # closes es"
| "closes (e # es) = closes es"

text \<open>The three events of a redirection that succeeded, and the same without regard to
  the file: a successful \<^verbatim>\<open>open\<close>, \<^verbatim>\<open>dup2\<close> of its descriptor onto \<open>std\<close>,
  \<^verbatim>\<open>close\<close> of its descriptor.\<close>

definition triplet :: "string option \<Rightarrow> oflag set \<Rightarrow> nat option \<Rightarrow> nat \<Rightarrow> nat \<Rightarrow> event list" where
  "triplet path flags mode fd std =
     [Sys (Open path flags mode) (RFd fd), Sys (Dup2 fd std) ROk, Sys (Close fd) ROk]"

definition is_triplet :: "nat \<Rightarrow> event list \<Rightarrow> bool" where
  "is_triplet std es =
     (case es of
        [Sys (Open path flags mode) (RFd fd), e2, e3] \<Rightarrow>
          e2 = Sys (Dup2 fd std) ROk \<and> e3 = Sys (Close fd) ROk
      | _ \<Rightarrow> False)"

text \<open>What a redirection block of \<^verbatim>\<open>execute_nonbuiltin\<close> must have done when
  \<^verbatim>\<open>execvp\<close> is reached: nothing when the path is not set, else its three calls.\<close>

definition block_done :: "string option \<Rightarrow> nat \<Rightarrow> event list \<Rightarrow> bool" where
  "block_done path std es = (case path of None \<Rightarrow> es = [] | Some f \<Rightarrow> is_triplet std es)"

text \<open>\<open>q\<close> is \<open>p\<close> after the events \<open>es\<close>, with the same identity, working directory
  and process table.\<close>

definition steps :: "proc \<Rightarrow> event list \<Rightarrow> proc \<Rightarrow> bool" where
  "steps p es q \<longleftrightarrow>
     trace q = trace p @ es \<and> pid q = pid p \<and> procs q = procs p \<and> cwd q = cwd p"

text \<open>A descriptor table read after \<open>std\<close> was redirected to \<open>file\<close> through the
  descriptor \<open>fd\<close>, which was free before and is closed again.\<close>

definition redirected ::
  "nat \<Rightarrow> nat \<Rightarrow> ofile \<Rightarrow> (nat \<Rightarrow> ofile option) \<Rightarrow> nat \<Rightarrow> ofile option" where
  "redirected std fd file look n = (if n = std \<and> std \<noteq> fd then Some file else look n)"

text \<open>One redirection block of \<^verbatim>\<open>execute_nonbuiltin\<close> that let the process go
  on: \<open>cfg\<close> is the field that switches the block on, \<open>path\<close> the path it opens.\<close>

definition stage ::
  "string option \<Rightarrow> string option \<Rightarrow> oflag set \<Rightarrow> nat option \<Rightarrow> nat \<Rightarrow>
     proc \<Rightarrow> event list \<Rightarrow> proc \<Rightarrow> bool" where
  "stage cfg path flags mode std p es q =
     (case cfg of
        None \<Rightarrow> es = [] \<and> q = p
      | Some name \<Rightarrow>
          (case path of
             None \<Rightarrow> False
           | Some f \<Rightarrow>
               es = triplet path flags mode (fd_alloc (fds p)) std \<and> steps p es q \<and>
               fd_lookup (fds q) =
                 redirected std (fd_alloc (fds p)) (File f flags mode) (fd_lookup (fds p))))"


text \<open>The positions of the environment (process and index in its trace) that the calls
  wiring a command consult when none of them fails: for an operator, in the process
  that runs it, \<^verbatim>\<open>pipe\<close>, the two \<^verbatim>\<open>fork\<close>s, the two \<^verbatim>\<open>close\<close>s and the two
  \<^verbatim>\<open>waitpid\<close>s, and in each child \<^verbatim>\<open>close\<close>, \<^verbatim>\<open>dup2\<close>, \<^verbatim>\<open>close\<close>, followed
  by the wiring of the sub-command that the child runs. The calls of
  \<^verbatim>\<open>execute_nonbuiltin\<close> are not among them.\<close>

fun wiring_calls :: "command \<Rightarrow> pid \<Rightarrow> nat \<Rightarrow> (pid \<times> nat) list" where
  "wiring_calls (Leaf s) q n = []"
| "wiring_calls (Node oper cmd1 cmd2) q n =
     [(q, n), (q, n + 1), (q, n + 2), (q, n + 3), (q, n + 4), (q, n + 5), (q, n + 6)] @
     [(q @ [n + 1], 0), (q @ [n + 1], 1), (q @ [n + 1], 2)] @
     wiring_calls cmd1 (q @ [n + 1]) 3 @
     [(q @ [n + 2], 0), (q @ [n + 2], 1), (q @ [n + 2], 2)] @
     wiring_calls cmd2 (q @ [n + 2]) 3"

definition wiring_succeeds :: "env \<Rightarrow> command \<Rightarrow> proc \<Rightarrow> bool" where
  "wiring_succeeds env cmd p =
     list_all (\<lambda>(q, i). \<not> fails env q i) (wiring_calls cmd (pid p) (length (trace p)))"


text \<open>The descriptors of a list of pipes.\<close>

definition pipe_ends :: "(nat \<times> nat) list \<Rightarrow> nat list" where
  "pipe_ends ps = concat (map (\<lambda>(r, w). [r, w]) ps)"


text \<open>An entry of the process table whose process died of each of its failed setup
  calls, and a result that extends a state by such a trace and such entries.\<close>

definition healthy :: "pentry \<Rightarrow> bool" where
  "healthy en = fatal_failures (pe_trace en) (Some (pe_end en))"

definition contained :: "proc \<Rightarrow> 'a result \<Rightarrow> bool" where
  "contained p res \<longleftrightarrow>
     (\<exists>es new. trace (final res) = trace p @ es \<and> procs (final res) = procs p @ new \<and>
        fatal_failures es (ending_of res) \<and> list_all healthy new)"


text \<open>Counting: the pipes created by a trace and by the entries of a process table;
  a trace that waited for exactly the children it forked; the entries whose process
  forked nothing.\<close>

definition pipes_total :: "event list \<Rightarrow> pentry list \<Rightarrow> nat" where
  "pipes_total es new = length (pipes es) + sum_list (map (\<lambda>en. length (pipes (pe_trace en))) new)"

definition reaps :: "event list \<Rightarrow> bool" where
  "reaps es \<longleftrightarrow> forked es = waited es"

definition leaf_processes :: "pentry list \<Rightarrow> nat" where
  "leaf_processes new = length (filter (\<lambda>en. forked (pe_trace en) = []) new)"

text \<open>The entry \<open>en\<close> is a process that, after the three calls that wire a child to its
  pipe, did what \<^verbatim>\<open>execute_nonbuiltin\<close> does for the simple command \<open>s\<close>, to its
  end.\<close>

definition runs_leaf :: "env \<Rightarrow> simple_command \<Rightarrow> pentry \<Rightarrow> bool" where
  "runs_leaf env s en \<longleftrightarrow>
     (\<exists>q3 q a b std. pid q3 = pe_pid en \<and>
        trace q3 = [Sys (Close a) ROk, Sys (Dup2 b std) ROk, Sys (Close b) ROk] \<and>
        execute_nonbuiltin env s q3 = (pe_end en, q) \<and> pe_trace en = trace q)"


text \<open>\<open>accounted\<close> is what the induction over the command proves of a run whose wiring
  succeeds.\<close>

definition accounted :: "env \<Rightarrow> command \<Rightarrow> proc \<Rightarrow> int result \<Rightarrow> bool" where
  "accounted env cmd p res \<longleftrightarrow>
     (\<exists>es new. trace (final res) = trace p @ es \<and> procs (final res) = procs p @ new \<and>
        length new = 2 * nodes cmd \<and> pipes_total es new = nodes cmd \<and>
        reaps es \<and> list_all (\<lambda>en. reaps (pe_trace en)) new \<and>
        list_all (\<lambda>en. forked (pe_trace en) = [] \<or> length (forked (pe_trace en)) = 2) new \<and>
        (case cmd of
           Leaf s \<Rightarrow> forked es = [] \<and> res = halt (execute_nonbuiltin env s p)
         | Node oper cmd1 cmd2 \<Rightarrow>
             res = Returns 0 (final res) \<and> length (forked es) = 2 \<and>
             list_all2 (runs_leaf env) (leaf_commands cmd)
               (filter (\<lambda>en. forked (pe_trace en) = []) new)))"


section \<open>The repeated blocks of the source\<close>

text \<open>The source writes the same three calls at each redirection (\<^verbatim>\<open>open\<close>,
  \<^verbatim>\<open>dup2\<close> onto a standard descriptor, \<^verbatim>\<open>close\<close>), in each child of a pipe
  (\<^verbatim>\<open>close\<close> the end it does not use, \<^verbatim>\<open>dup2\<close> the other, \<^verbatim>\<open>close\<close> it)
  and at the end of the parent. The blocks are named here, and the functions above are
  shown below to be built from them.\<close>

definition redirect ::
  "env \<Rightarrow> string option \<Rightarrow> string \<Rightarrow> oflag set \<Rightarrow> nat option \<Rightarrow> nat \<Rightarrow> proc
     \<Rightarrow> (ending \<times> proc) + proc" where
  "redirect env path name flags mode std p =
     (case sys_open env path flags mode p of
        (None, p1) \<Rightarrow> Inl (die name p1)
      | (Some fd, p1) \<Rightarrow>
          (case sys_dup2 env fd std p1 of
             (False, p2) \<Rightarrow> Inl (die ''dup2'' p2)
           | (True, p2) \<Rightarrow>
               (case sys_close env fd p2 of
                  (False, p3) \<Rightarrow> Inl (die ''close'' p3)
                | (True, p3) \<Rightarrow> Inr p3)))"

definition pipe_child ::
  "env \<Rightarrow> nat \<Rightarrow> nat \<Rightarrow> nat \<Rightarrow> (proc \<Rightarrow> int result) \<Rightarrow> proc \<Rightarrow> ending \<times> proc" where
  "pipe_child env unused used std run q =
     (case sys_close env unused q of
        (False, q1) \<Rightarrow> die ''close'' q1
      | (True, q1) \<Rightarrow>
     (case sys_dup2 env used std q1 of
        (False, q2) \<Rightarrow> die ''dup2'' q2
      | (True, q2) \<Rightarrow>
     (case sys_close env used q2 of
        (False, q3) \<Rightarrow> die ''close'' q3
      | (True, q3) \<Rightarrow> then_exit 0 (run q3))))"

definition pipe_parent :: "env \<Rightarrow> nat \<Rightarrow> nat \<Rightarrow> pid \<Rightarrow> pid \<Rightarrow> proc \<Rightarrow> int result" where
  "pipe_parent env r w pid1 pid2 p3 =
     (case sys_close env r p3 of
        (False, p4) \<Rightarrow> halt (die ''close'' p4)
      | (True, p4) \<Rightarrow>
     (case sys_close env w p4 of
        (False, p5) \<Rightarrow> halt (die ''close'' p5)
      | (True, p5) \<Rightarrow>
     (case sys_waitpid env pid1 p5 of
        (False, p6) \<Rightarrow> halt (die ''waitpid'' p6)
      | (True, p6) \<Rightarrow>
     (case sys_waitpid env pid2 p6 of
        (False, p7) \<Rightarrow> halt (die ''waitpid'' p7)
      | (True, p7) \<Rightarrow> Returns 0 p7))))"


section \<open>Example inputs\<close>

text \<open>An environment where no call fails and \<^verbatim>\<open>/tmp\<close> and
  \<^verbatim>\<open>/home/docs\<close> are the only directories that can be entered; the interpreter at start, in \<^verbatim>\<open>/home\<close>, with its three
  standard descriptors.\<close>

definition env_ok :: env where
  "env_ok = \<lparr>fails = (\<lambda>q n. False),
             chdir_target =
               (\<lambda>d path. if path = ''/tmp'' \<or> path = ''/home/docs'' then Some path else None)\<rparr>"

definition shell0 :: proc where
  "shell0 = \<lparr>pid = [], fds = [Some (Inherited 0), Some (Inherited 1), Some (Inherited 2)],
             cwd = ''/home'', trace = [], procs = []\<rparr>"

definition external :: "string list \<Rightarrow> simple_command" where
  "external ts = \<lparr>s_in = None, s_out = None, s_err = None, tokens = ts,
                  builtin = BUILTIN_NONE\<rparr>"

text \<open>\<^verbatim>\<open>ls < in.txt 2> err.txt\<close> and \<^verbatim>\<open>echo hi > out.txt\<close>.\<close>

definition err_to_file :: simple_command where
  "err_to_file = \<lparr>s_in = Some ''in.txt'', s_out = None, s_err = Some ''err.txt'',
                   tokens = [''ls''], builtin = BUILTIN_NONE\<rparr>"

definition out_to_file :: simple_command where
  "out_to_file = \<lparr>s_in = None, s_out = Some ''out.txt'', s_err = None,
                   tokens = [''echo'', ''hi''], builtin = BUILTIN_NONE\<rparr>"

text \<open>An environment where the second call of the first child fails.\<close>

definition env_dup2_fails :: env where
  "env_dup2_fails = \<lparr>fails = (\<lambda>q n. q = [0] \<and> n = 1), chdir_target = (\<lambda>d path. None)\<rparr>"

text \<open>\<^verbatim>\<open>cat f | wc -l\<close>.\<close>

definition two_stage :: command where
  "two_stage = Node ''|'' (Leaf (external [''cat'', ''f''])) (Leaf (external [''wc'', ''-l'']))"

text \<open>An environment where the first call of the interpreter fails, and the line
  \<^verbatim>\<open>exit\<close>.\<close>

definition env_fork_fails :: env where
  "env_fork_fails = \<lparr>fails = (\<lambda>q n. q = [] \<and> n = 0), chdir_target = (\<lambda>d path. None)\<rparr>"

definition exit_command :: simple_command where
  "exit_command = \<lparr>s_in = None, s_out = None, s_err = None, tokens = [''exit''],
                    builtin = BUILTIN_EXIT\<rparr>"

text \<open>\<^verbatim>\<open>cat f | sort | wc -l\<close>.\<close>

definition three_stage :: command where
  "three_stage =
     Node ''|'' (Leaf (external [''cat'', ''f'']))
       (Node ''|'' (Leaf (external [''sort''])) (Leaf (external [''wc'', ''-l''])))"

text \<open>A relative path of 100 characters, and an environment where the directory of
  that name under \<^verbatim>\<open>/home\<close> exists.\<close>

definition long_arg :: string where
  "long_arg = replicate 100 (CHR ''a'')"

definition env_long :: env where
  "env_long = \<lparr>fails = (\<lambda>q n. False),
               chdir_target = (\<lambda>d path. if path = ''/home/'' @ long_arg then Some path else None)\<rparr>"

text \<open>An absolute directory name of 98 characters.\<close>

definition long_cwd :: string where
  "long_cwd = CHR ''/'' # replicate 97 (CHR ''d'')"



text \<open>An environment where the fourth call of the process \<open>[1]\<close> fails (in a pipeline
  run by the interpreter, the \<^verbatim>\<open>execvp\<close> of the first command), and the line
  \<^verbatim>\<open>exit | cd /tmp\<close>.\<close>

definition env_exec_fails :: env where
  "env_exec_fails = \<lparr>fails = (\<lambda>q n. q = [1] \<and> n = 3), chdir_target = (\<lambda>d path. None)\<rparr>"



section \<open>Basic facts\<close>

lemma log_simps [simp]:
  "pid (log e p) = pid p" "fds (log e p) = fds p" "cwd (log e p) = cwd p"
  "trace (log e p) = trace p @ [e]" "procs (log e p) = procs p"
  by (simp_all add: log_def)

lemma perror_simps [simp]:
  "pid (perror s p) = pid p" "fds (perror s p) = fds p" "cwd (perror s p) = cwd p"
  "trace (perror s p) = trace p @ [Perror s]" "procs (perror s p) = procs p"
  by (simp_all add: perror_def)

lemma fd_lookup_set: "fd_lookup (fd_set t n v) m = (if m = n then v else fd_lookup t m)"
  by (auto simp: fd_lookup_def fd_set_def nth_append nth_list_update)

lemma fd_lookup_alloc: "fd_lookup t (fd_alloc t) = None"
  unfolding fd_lookup_def fd_alloc_def
  using nth_length_takeWhile [of "\<lambda>x. x \<noteq> None" t] by auto



subsection \<open>The functions in terms of their blocks\<close>

lemma execute_nonbuiltin_blocks:
  "execute_nonbuiltin env s p =
     (case (case s_in s of None \<Rightarrow> Inr p
            | Some inpath \<Rightarrow> redirect env (s_in s) inpath {O_RDONLY} None STDIN p) of
        Inl dead \<Rightarrow> dead
      | Inr pa \<Rightarrow>
     (case (case s_out s of None \<Rightarrow> Inr pa
            | Some outpath \<Rightarrow>
                redirect env (s_out s) outpath {O_CREAT, O_RDWR, O_TRUNC} (Some mode_0664)
                  STDOUT pa) of
        Inl dead \<Rightarrow> dead
      | Inr pb \<Rightarrow>
     (case (case s_err s of None \<Rightarrow> Inr pb
            | Some errpath \<Rightarrow>
                redirect env (s_in s) errpath {O_CREAT, O_RDWR, O_TRUNC} (Some mode_0664)
                  STDERR pb) of
        Inl dead \<Rightarrow> dead
      | Inr pc \<Rightarrow> execute_command env (tokens s) pc)))"
  unfolding execute_nonbuiltin_def redirect_def Let_def ..

lemma execute_complex_command_blocks:
  "execute_complex_command env (Node oper cmd1 cmd2) p =
     (if oper = ''|'' then
        (case sys_pipe env p of
           (None, p1) \<Rightarrow> halt (die ''pipe'' p1)
         | (Some (r, w), p1) \<Rightarrow>
        (case sys_fork env (pipe_child env r w STDOUT (execute_complex_command env cmd1)) p1 of
           (None, p2) \<Rightarrow> halt (die ''fork'' p2)
         | (Some pid1, p2) \<Rightarrow>
        (case sys_fork env (pipe_child env w r STDIN (execute_complex_command env cmd2)) p2 of
           (None, p3) \<Rightarrow> halt (die ''fork'' p3)
         | (Some pid2, p3) \<Rightarrow> pipe_parent env r w pid1 pid2 p3)))
      else Returns 0 p)"
  unfolding execute_complex_command.simps pipe_child_def [abs_def] pipe_parent_def ..

declare execute_complex_command.simps(2) [simp del]


section \<open>Changing directory\<close>

lemma strncat_slash:
  "length dir \<le> 97 \<Longrightarrow> strncat MAX_DIRNAME dir ''/'' 1 = Some (dir @ ''/'')"
  by (simp add: strncat_def MAX_DIRNAME_def)

lemma room_small: "length dir \<le> 99 \<Longrightarrow> room dir = 99 - length dir"
  by (simp add: room_def MAX_DIRNAME_def nat_diff_distrib')

lemma strncat_arg:
  "length dir1 \<le> 98 \<Longrightarrow>
   strncat MAX_DIRNAME dir1 arg (room dir1) = Some (take (MAX_DIRNAME - 1) (dir1 @ arg))"
  by (simp add: strncat_def room_small) (simp add: MAX_DIRNAME_def)

lemma execute_cd_relative:
  assumes "2 \<le> length words" "words ! 0 = ''cd''" "is_relative (words ! 1)"
    and "\<not> failing env p" "length (cwd p) \<le> MAX_DIRNAME - 3"
  shows "execute_cd env words p =
     (case sys_chdir env (take (MAX_DIRNAME - 1) (cwd p @ ''/'' @ words ! 1))
             (log (Sys (Getcwd (MAX_DIRNAME - 2)) (RDir (cwd p))) p) of
        (False, q) \<Rightarrow> Returns EXIT_FAILURE q
      | (True, q) \<Rightarrow> Returns EXIT_SUCCESS q)"
proof -
  from assms(5) have len: "length (cwd p) \<le> 97" by (simp add: MAX_DIRNAME_def)
  have g: "sys_getcwd env (MAX_DIRNAME - 2) p =
      (Some (cwd p), log (Sys (Getcwd (MAX_DIRNAME - 2)) (RDir (cwd p))) p)"
    using assms(4) len by (simp add: sys_getcwd_def MAX_DIRNAME_def)
  have s2: "strncat MAX_DIRNAME (cwd p @ ''/'') (words ! 1) (room (cwd p @ ''/'')) =
      Some (take (MAX_DIRNAME - 1) (cwd p @ ''/'' @ words ! 1))"
    using strncat_arg [of "cwd p @ ''/''" "words ! 1"] len by simp
  show ?thesis
    using assms(1-3) by (simp add: execute_cd_def g strncat_slash [OF len] s2 del: One_nat_def)
qed

lemma execute_cd_long_cwd:
  assumes "2 \<le> length words" "words ! 0 = ''cd''" "is_relative (words ! 1)"
    and "MAX_DIRNAME - 2 \<le> length (cwd p)"
  shows "execute_cd env words p =
     Returns EXIT_FAILURE (log (Sys (Getcwd (MAX_DIRNAME - 2)) RFail) p)"
  using assms by (simp add: execute_cd_def sys_getcwd_def)

lemma execute_cd_absolute:
  assumes "2 \<le> length words" "words ! 0 = ''cd''" "\<not> is_relative (words ! 1)"
  shows "execute_cd env words p =
     (case sys_chdir env (words ! 1) p of
        (False, q) \<Rightarrow> Returns EXIT_FAILURE q
      | (True, q) \<Rightarrow> Returns EXIT_SUCCESS q)"
  using assms by (simp add: execute_cd_def del: One_nat_def)

lemma execute_cd_returns: "execute_cd env words p \<noteq> Halts e q"
proof (cases "failing env p \<or> MAX_DIRNAME - 2 < length (cwd p) + 1")
  case True
  then show ?thesis
    by (auto simp: execute_cd_def sys_getcwd_def split: prod.splits bool.splits)
next
  case False
  then have len: "length (cwd p) \<le> 97" by (simp add: MAX_DIRNAME_def)
  have g: "sys_getcwd env (MAX_DIRNAME - 2) p =
      (Some (cwd p), log (Sys (Getcwd (MAX_DIRNAME - 2)) (RDir (cwd p))) p)"
    using False by (simp add: sys_getcwd_def)
  have s2: "strncat MAX_DIRNAME (cwd p @ ''/'') (words ! 1) (room (cwd p @ ''/'')) =
      Some (take (MAX_DIRNAME - 1) (cwd p @ ''/'' @ words ! 1))"
    using strncat_arg [of "cwd p @ ''/''" "words ! 1"] len by simp
  show ?thesis
    by (simp add: execute_cd_def g strncat_slash [OF len] s2 del: One_nat_def
        split: prod.splits bool.splits)
qed

lemma long_arg_rel: "is_relative long_arg"
  by (simp add: is_relative_def long_arg_def numeral_eq_Suc)

lemma take_long: "take 99 (''/home/'' @ long_arg) = ''/home/'' @ replicate 93 (CHR ''a'')"
  by (simp add: long_arg_def)

lemma len_long_cwd: "length long_cwd = 98" by (simp add: long_cwd_def)


text \<open>
  Claim C10. \<^verbatim>\<open>execute_cd\<close> never writes outside the array \<^verbatim>\<open>dir\<close> of
  \<open>MAX_DIRNAME\<close> bytes: it always returns. For a relative argument, when the working
  directory has at most \<open>MAX_DIRNAME - 3\<close> characters and \<^verbatim>\<open>getcwd\<close> does not
  fail otherwise, \<^verbatim>\<open>chdir\<close> is called on the first \<open>MAX_DIRNAME - 1\<close> characters
  of the directory, a separator and the argument, and \<^verbatim>\<open>execute_cd\<close> writes no
  diagnostic; when the working directory has \<open>MAX_DIRNAME - 2\<close> characters or more,
  \<^verbatim>\<open>getcwd\<close> fails, \<^verbatim>\<open>chdir\<close> is not called and \<^verbatim>\<open>execute_cd\<close> returns
  \<open>EXIT_FAILURE\<close>.
\<close>

theorem cd_bounded_buffer:
  "(\<forall>e q. execute_cd env words p \<noteq> Halts e q) \<and>
   (2 \<le> length words \<and> words ! 0 = ''cd'' \<and> is_relative (words ! 1) \<longrightarrow>
      (\<not> failing env p \<and> length (cwd p) \<le> MAX_DIRNAME - 3 \<longrightarrow>
         (\<exists>ok q. sys_chdir env (take (MAX_DIRNAME - 1) (cwd p @ ''/'' @ words ! 1))
                    (log (Sys (Getcwd (MAX_DIRNAME - 2)) (RDir (cwd p))) p) = (ok, q) \<and>
                 execute_cd env words p =
                   Returns (if ok then EXIT_SUCCESS else EXIT_FAILURE) q)) \<and>
      (MAX_DIRNAME - 2 \<le> length (cwd p) \<longrightarrow>
         execute_cd env words p =
           Returns EXIT_FAILURE (log (Sys (Getcwd (MAX_DIRNAME - 2)) RFail) p)))"
proof (intro conjI allI impI)
  fix e q show "execute_cd env words p \<noteq> Halts e q" by (rule execute_cd_returns)
next
  assume a: "2 \<le> length words \<and> words ! 0 = ''cd'' \<and> is_relative (words ! 1)"
    and b: "\<not> failing env p \<and> length (cwd p) \<le> MAX_DIRNAME - 3"
  obtain ok q where c: "sys_chdir env (take (MAX_DIRNAME - 1) (cwd p @ ''/'' @ words ! 1))
                    (log (Sys (Getcwd (MAX_DIRNAME - 2)) (RDir (cwd p))) p) = (ok, q)"
    by (cases "sys_chdir env (take (MAX_DIRNAME - 1) (cwd p @ ''/'' @ words ! 1))
                    (log (Sys (Getcwd (MAX_DIRNAME - 2)) (RDir (cwd p))) p)") auto
  have "execute_cd env words p = Returns (if ok then EXIT_SUCCESS else EXIT_FAILURE) q"
    using a b c by (simp add: execute_cd_relative del: One_nat_def)
  with c show "\<exists>ok q. sys_chdir env (take (MAX_DIRNAME - 1) (cwd p @ ''/'' @ words ! 1))
                    (log (Sys (Getcwd (MAX_DIRNAME - 2)) (RDir (cwd p))) p) = (ok, q) \<and>
                 execute_cd env words p =
                   Returns (if ok then EXIT_SUCCESS else EXIT_FAILURE) q" by blast
next
  assume a: "2 \<le> length words \<and> words ! 0 = ''cd'' \<and> is_relative (words ! 1)"
    and b: "MAX_DIRNAME - 2 \<le> length (cwd p)"
  then show "execute_cd env words p =
           Returns EXIT_FAILURE (log (Sys (Getcwd (MAX_DIRNAME - 2)) RFail) p)"
    by (simp add: execute_cd_long_cwd del: One_nat_def)
qed

text \<open>With a working directory of 98 characters the composed name would exceed the
  array, and no \<^verbatim>\<open>chdir\<close> is attempted at all.\<close>

theorem cd_bounded_buffer_counterexample:
  "is_relative ''x'' \<and> MAX_DIRNAME - 1 < length long_cwd + 1 + length ''x'' \<and>
   trace (final (execute_cd env_ok [''cd'', ''x''] (shell0\<lparr>cwd := long_cwd\<rparr>))) =
     [Sys (Getcwd 98) RFail]"
  by (simp add: execute_cd_def is_relative_def sys_getcwd_def MAX_DIRNAME_def len_long_cwd
      shell0_def env_ok_def failing_def)

theorem cd_bounded_buffer_witness:
  "execute_cd env_ok [''cd'', long_arg] shell0 =
     Returns EXIT_FAILURE
       (log (Sys (Chdir (''/home/'' @ replicate 93 (CHR ''a''))) RFail)
          (log (Sys (Getcwd 98) (RDir ''/home'')) shell0)) \<and>
   execute_cd env_ok [''cd'', ''x''] (shell0\<lparr>cwd := long_cwd\<rparr>) =
     Returns EXIT_FAILURE (log (Sys (Getcwd 98) RFail) (shell0\<lparr>cwd := long_cwd\<rparr>))"
proof -
  have f: "\<not> failing env_ok shell0" by (simp add: failing_def env_ok_def)
  have c: "cwd shell0 = ''/home''" by (simp add: shell0_def)
  have "length (replicate 93 (CHR ''a'')) \<noteq> length ''docs''" by simp
  then have "replicate 93 (CHR ''a'') \<noteq> ''docs''" by metis
  then have t: "chdir_target env_ok ''/home'' (''/home/'' @ replicate 93 (CHR ''a'')) = None"
    by (simp add: env_ok_def)
  have 1: "execute_cd env_ok [''cd'', long_arg] shell0 =
     Returns EXIT_FAILURE
       (log (Sys (Chdir (''/home/'' @ replicate 93 (CHR ''a''))) RFail)
          (log (Sys (Getcwd 98) (RDir ''/home'')) shell0))"
    using cd_bounded_buffer [of env_ok "[''cd'', long_arg]" shell0] f long_arg_rel take_long t
    by (auto simp: c MAX_DIRNAME_def sys_chdir_def)
  have 2: "execute_cd env_ok [''cd'', ''x''] (shell0\<lparr>cwd := long_cwd\<rparr>) =
     Returns EXIT_FAILURE (log (Sys (Getcwd 98) RFail) (shell0\<lparr>cwd := long_cwd\<rparr>))"
    using cd_bounded_buffer [of env_ok "[''cd'', ''x'']" "shell0\<lparr>cwd := long_cwd\<rparr>"]
    by (simp add: is_relative_def len_long_cwd MAX_DIRNAME_def)
  from 1 2 show ?thesis by simp
qed

lemma absolute_append: "\<not> is_relative d \<Longrightarrow> \<not> is_relative (d @ s)"
  by (cases d) (simp_all add: is_relative_def)

lemma long_neq: "''/home/'' @ replicate 93 (CHR ''a'') \<noteq> ''/home/'' @ long_arg"
proof
  assume "''/home/'' @ replicate 93 (CHR ''a'') = ''/home/'' @ long_arg"
  then have "length (''/home/'' @ replicate 93 (CHR ''a'')) = length (''/home/'' @ long_arg)"
    by (rule arg_cong)
  then show False by (simp add: long_arg_def)
qed

text \<open>
  Claim C5. For a relative path and an absolute working directory of at most
  \<open>MAX_DIRNAME - 3\<close> characters, when the directory, a separator and the path together
  have at most \<open>MAX_DIRNAME - 1\<close> characters and \<^verbatim>\<open>getcwd\<close> does not fail,
  \<^verbatim>\<open>cd\<close> with the path and \<^verbatim>\<open>cd\<close> with the directory, a separator and the
  path return the same code and leave the same working directory, descriptors and
  process table.
\<close>

theorem cd_relative_as_absolute:
  assumes "is_relative path" and "\<not> is_relative (cwd p)" and "\<not> failing env p"
    and "length (cwd p) \<le> MAX_DIRNAME - 3"
    and "length (cwd p) + 1 + length path \<le> MAX_DIRNAME - 1"
  shows "\<exists>r q1 q2. execute_cd env [''cd'', path] p = Returns r q1 \<and>
           execute_cd env [''cd'', cwd p @ ''/'' @ path] p = Returns r q2 \<and>
           cwd q1 = cwd q2 \<and> fds q1 = fds q2 \<and> procs q1 = procs q2 \<and> pid q1 = pid q2"
proof -
  let ?full = "cwd p @ ''/'' @ path"
  let ?p1 = "log (Sys (Getcwd (MAX_DIRNAME - 2)) (RDir (cwd p))) p"
  have t: "take (MAX_DIRNAME - 1) ?full = ?full" using assms(5) by simp
  have rel: "execute_cd env [''cd'', path] p =
      (case sys_chdir env ?full ?p1 of
         (False, q) \<Rightarrow> Returns EXIT_FAILURE q | (True, q) \<Rightarrow> Returns EXIT_SUCCESS q)"
    using execute_cd_relative [of "[''cd'', path]" env p] assms(1,3,4) t by simp
  have ab: "execute_cd env [''cd'', ?full] p =
      (case sys_chdir env ?full p of
         (False, q) \<Rightarrow> Returns EXIT_FAILURE q | (True, q) \<Rightarrow> Returns EXIT_SUCCESS q)"
    using execute_cd_absolute [of "[''cd'', ?full]" env p] absolute_append [OF assms(2)]
    by simp
  show ?thesis
  proof (cases "chdir_target env (cwd p) ?full")
    case None
    then show ?thesis unfolding rel ab by (simp add: sys_chdir_def)
  next
    case (Some d)
    then show ?thesis unfolding rel ab by (simp add: sys_chdir_def)
  qed
qed

text \<open>A relative path of 100 characters under \<^verbatim>\<open>/home\<close>: the directory
  exists, \<^verbatim>\<open>cd\<close> with the absolute name enters it, \<^verbatim>\<open>cd\<close> with the relative
  name fails.\<close>

theorem cd_relative_as_absolute_counterexample:
  "is_relative long_arg \<and>
   returned (execute_cd env_long [''cd'', long_arg] shell0) = Some EXIT_FAILURE \<and>
   returned (execute_cd env_long [''cd'', cwd shell0 @ ''/'' @ long_arg] shell0) =
     Some EXIT_SUCCESS"
proof -
  have f: "\<not> failing env_long shell0" by (simp add: failing_def env_long_def)
  have c: "cwd shell0 = ''/home''" by (simp add: shell0_def)
  have t: "chdir_target env_long ''/home'' (''/home/'' @ replicate 93 (CHR ''a'')) = None"
    using long_neq by (simp add: env_long_def)
  have "execute_cd env_long [''cd'', long_arg] shell0 =
     (case sys_chdir env_long (take (MAX_DIRNAME - 1) (cwd shell0 @ ''/'' @ long_arg))
             (log (Sys (Getcwd (MAX_DIRNAME - 2)) (RDir (cwd shell0))) shell0) of
        (False, q) \<Rightarrow> Returns EXIT_FAILURE q
      | (True, q) \<Rightarrow> Returns EXIT_SUCCESS q)"
    using execute_cd_relative [of "[''cd'', long_arg]" env_long shell0] long_arg_rel f
    by (simp add: c MAX_DIRNAME_def)
  then have 1: "returned (execute_cd env_long [''cd'', long_arg] shell0) = Some EXIT_FAILURE"
    using t take_long by (simp add: c MAX_DIRNAME_def sys_chdir_def)
  have 2: "returned (execute_cd env_long [''cd'', cwd shell0 @ ''/'' @ long_arg] shell0) =
     Some EXIT_SUCCESS"
    by (simp add: execute_cd_absolute c is_relative_def sys_chdir_def env_long_def)
  from 1 2 long_arg_rel show ?thesis by simp
qed

theorem cd_relative_as_absolute_witness:
  "execute_cd env_ok [''cd'', ''docs''] shell0 =
     Returns EXIT_SUCCESS
       (log (Sys (Chdir ''/home/docs'') ROk)
          ((log (Sys (Getcwd 98) (RDir ''/home'')) shell0)\<lparr>cwd := ''/home/docs''\<rparr>)) \<and>
   execute_cd env_ok [''cd'', ''/home/docs''] shell0 =
     Returns EXIT_SUCCESS (log (Sys (Chdir ''/home/docs'') ROk) (shell0\<lparr>cwd := ''/home/docs''\<rparr>))"
  using cd_relative_as_absolute [of "''docs''" shell0 env_ok]
  by (simp add: is_relative_def failing_def env_ok_def MAX_DIRNAME_def
      execute_cd_def sys_getcwd_def sys_chdir_def strncat_def room_def shell0_def)

section \<open>Builtins at the top level\<close>

lemma sys_chdir_effect:
  "sys_chdir env path p = (ok, q) \<Longrightarrow>
     fds q = fds p \<and> procs q = procs p \<and> pid q = pid p \<and> (\<not> ok \<longrightarrow> cwd q = cwd p) \<and>
     trace q = trace p @ [Sys (Chdir path) (if ok then ROk else RFail)]"
  by (auto simp: sys_chdir_def split: option.splits)

lemma sys_getcwd_effect:
  "sys_getcwd env n p = (r, q) \<Longrightarrow>
     fds q = fds p \<and> procs q = procs p \<and> pid q = pid p \<and> cwd q = cwd p \<and>
     trace q = trace p @ [Sys (Getcwd n) (case r of None \<Rightarrow> RFail | Some d \<Rightarrow> RDir d)]"
  by (auto simp: sys_getcwd_def split: if_splits)

lemma forked_append [simp]: "forked (es @ fs) = forked es @ forked fs"
  by (induction es rule: forked.induct) simp_all

lemma waited_append [simp]: "waited (es @ fs) = waited es @ waited fs"
  by (induction es rule: waited.induct) simp_all

lemma pipes_append [simp]: "pipes (es @ fs) = pipes es @ pipes fs"
  by (induction es rule: pipes.induct) simp_all

lemma execute_cd_effect:
  assumes "execute_cd env words p = Returns r q"
  shows "fds q = fds p \<and> procs q = procs p \<and> pid q = pid p \<and>
     (r = EXIT_FAILURE \<longrightarrow> cwd q = cwd p) \<and>
     (\<exists>es. trace q = trace p @ es \<and> forked es = [] \<and> pipes es = [] \<and> closes es = [] \<and>
        \<not> list_ex is_dup2 es)"
  using assms unfolding execute_cd_def
  by (auto simp: EXIT_FAILURE_def EXIT_SUCCESS_def
      split: if_splits prod.splits bool.splits option.splits
      dest!: sys_chdir_effect sys_getcwd_effect)






section \<open>The exit builtin and the return code\<close>




section \<open>Running an external program\<close>

lemma steps_refl: "steps p [] p" by (simp add: steps_def)

lemma steps_trans: "steps p es q \<Longrightarrow> steps q fs r \<Longrightarrow> steps p (es @ fs) r"
  by (simp add: steps_def)

lemma fatal_failures_clean:
  "\<not> list_ex setup_failure es \<Longrightarrow> fatal_failures (es @ fs) e = fatal_failures fs e"
  by (induction es) simp_all

lemma fatal_failures_none: "\<not> list_ex setup_failure es \<Longrightarrow> fatal_failures es e"
  using fatal_failures_clean [of es "[]" e] by simp

lemma plain_quiet:
  "list_all plain es \<Longrightarrow>
     forked es = [] \<and> pipes es = [] \<and> waited es = [] \<and> \<not> list_ex exec_attempt es \<and>
     \<not> list_ex fork_attempt es"
proof (induction es)
  case Nil
  then show ?case by simp
next
  case (Cons x xs)
  then show ?case by (cases x rule: plain.cases) simp_all
qed

lemma triplet_props:
  "list_all plain (triplet path flags mode fd std)"
  "\<not> list_ex setup_failure (triplet path flags mode fd std)"
  "is_triplet std (triplet path flags mode fd std)"
  by (simp_all add: triplet_def is_triplet_def)

lemma redirect_cases:
  obtains (dead) q es where "redirect env path name flags mode std p = Inl (Exited 1, q)"
      "steps p es q" "list_all plain es" "fatal_failures es (Some (Exited 1))"
      "list_ex setup_failure es"
  | (ok) q f where "redirect env path name flags mode std p = Inr q" "path = Some f"
      "steps p (triplet path flags mode (fd_alloc (fds p)) std) q"
      "fd_lookup (fds q) =
         redirected std (fd_alloc (fds p)) (File f flags mode) (fd_lookup (fds p))"
proof (cases "redirect env path name flags mode std p")
  case (Inl a)
  then show ?thesis
    by (intro dead [of "snd a" "drop (length (trace p)) (trace (snd a))"])
      (auto simp: redirect_def sys_open_def sys_dup2_def sys_close_def die_def steps_def Let_def
        split: prod.splits option.splits bool.splits if_splits)
next
  case (Inr q)
  then obtain f where f: "path = Some f"
    by (auto simp: redirect_def sys_open_def die_def split: prod.splits option.splits bool.splits if_splits)
  have s: "steps p (triplet path flags mode (fd_alloc (fds p)) std) q"
    using Inr
    by (auto simp: redirect_def sys_open_def sys_dup2_def sys_close_def die_def steps_def Let_def
        triplet_def split: prod.splits option.splits bool.splits if_splits)
  have "fds q = fd_set (fd_set (fd_set (fds p) (fd_alloc (fds p)) (Some (File f flags mode)))
       std (Some (File f flags mode))) (fd_alloc (fds p)) None"
    using Inr f
    by (auto simp: redirect_def sys_open_def sys_dup2_def sys_close_def die_def Let_def
        fd_lookup_set split: prod.splits option.splits bool.splits if_splits)
  then have "fd_lookup (fds q) =
         redirected std (fd_alloc (fds p)) (File f flags mode) (fd_lookup (fds p))"
    using fd_lookup_alloc [of "fds p"]
    by (auto simp: fun_eq_iff redirected_def fd_lookup_set)
  with Inr f s show ?thesis by (rule ok)
qed


lemma stage_props:
  assumes "stage cfg path flags mode std p es q"
  shows "steps p es q" "block_done cfg std es" "list_all plain es"
    "\<not> list_ex setup_failure es"
  using assms
  by (auto simp: stage_def block_done_def steps_refl triplet_props split: option.splits)

lemma execute_command_cases:
  obtains (crash) "toks = []"
      "execute_command env toks p = (Crashed, log (Sys (Execvp None toks) RFail) p)"
  | (fail) t ts where "toks = t # ts" "failing env p"
      "execute_command env toks p =
         (Exited 1, perror t (log (Sys (Execvp (Some t) toks) RFail) p))"
  | (ok) t ts where "toks = t # ts" "\<not> failing env p"
      "execute_command env toks p = (Execed toks, log (Sys (Execvp (Some t) toks) ROk) p)"
  by (cases toks; cases "failing env p") (auto simp: execute_command_def die_def)

lemma block_cases:
  fixes cfg :: "string option"
  shows "(\<exists>q es. (case cfg of None \<Rightarrow> Inr p0
                    | Some n \<Rightarrow> redirect env path n flags mode std p0) = Inl (Exited 1, q) \<and>
              steps p0 es q \<and> list_all plain es \<and> fatal_failures es (Some (Exited 1)) \<and>
              list_ex setup_failure es) \<or>
          (\<exists>q es. (case cfg of None \<Rightarrow> Inr p0
                    | Some n \<Rightarrow> redirect env path n flags mode std p0) = Inr q \<and>
              stage cfg path flags mode std p0 es q)"
proof (cases cfg)
  case None
  then show ?thesis by (simp add: stage_def)
next
  case (Some n)
  show ?thesis
  proof (cases rule: redirect_cases [of env path n flags mode std p0])
    case (dead q es)
    with Some show ?thesis by auto
  next
    case (ok q f)
    with Some show ?thesis by (auto simp: stage_def)
  qed
qed

lemma execute_nonbuiltin_cases:
  obtains (died) q es where "execute_nonbuiltin env s p = (Exited 1, q)" "steps p es q"
      "list_all plain es" "fatal_failures es (Some (Exited 1))" "list_ex setup_failure es"
  | (exec) pa pb pc a b c where
      "execute_nonbuiltin env s p = execute_command env (tokens s) pc"
      "stage (s_in s) (s_in s) {O_RDONLY} None STDIN p a pa"
      "stage (s_out s) (s_out s) {O_CREAT, O_RDWR, O_TRUNC} (Some mode_0664) STDOUT pa b pb"
      "stage (s_err s) (s_in s) {O_CREAT, O_RDWR, O_TRUNC} (Some mode_0664) STDERR pb c pc"
proof -
  show ?thesis
  proof -
    from block_cases [where cfg = "s_in s" and path = "s_in s" and flags = "{O_RDONLY}" and mode = None
        and std = STDIN and ?p0.0 = p and env = env]
    consider (d1) q es where
        "(case s_in s of None \<Rightarrow> Inr p
          | Some n \<Rightarrow> redirect env (s_in s) n {O_RDONLY} None STDIN p) = Inl (Exited 1, q)"
        "steps p es q" "list_all plain es" "fatal_failures es (Some (Exited 1))"
        "list_ex setup_failure es"
      | (o1) pa a where
        "(case s_in s of None \<Rightarrow> Inr p
          | Some n \<Rightarrow> redirect env (s_in s) n {O_RDONLY} None STDIN p) = Inr pa"
        "stage (s_in s) (s_in s) {O_RDONLY} None STDIN p a pa"
      by auto
    then show ?thesis
    proof cases
      case d1
      then show ?thesis by (intro died [of q es]) (simp_all add: execute_nonbuiltin_blocks)
    next
      case o1
      note A = stage_props [OF o1(2)]
      from block_cases [where cfg = "s_out s" and path = "s_out s"
          and flags = "{O_CREAT, O_RDWR, O_TRUNC}" and mode = "Some mode_0664"
          and std = STDOUT and ?p0.0 = pa and env = env]
      consider (d2) q es where
          "(case s_out s of None \<Rightarrow> Inr pa
            | Some n \<Rightarrow> redirect env (s_out s) n {O_CREAT, O_RDWR, O_TRUNC} (Some mode_0664)
                STDOUT pa) = Inl (Exited 1, q)"
          "steps pa es q" "list_all plain es" "fatal_failures es (Some (Exited 1))"
          "list_ex setup_failure es"
        | (o2) pb b where
          "(case s_out s of None \<Rightarrow> Inr pa
            | Some n \<Rightarrow> redirect env (s_out s) n {O_CREAT, O_RDWR, O_TRUNC} (Some mode_0664)
                STDOUT pa) = Inr pb"
          "stage (s_out s) (s_out s) {O_CREAT, O_RDWR, O_TRUNC} (Some mode_0664) STDOUT pa b pb"
        by auto
      then show ?thesis
      proof cases
        case d2
        have "steps p (a @ es) q" using A(1) d2(2) by (rule steps_trans)
        moreover have "list_all plain (a @ es)" using A(3) d2(3) by simp
        moreover have "fatal_failures (a @ es) (Some (Exited 1))"
          using A(4) d2(4) by (simp add: fatal_failures_clean)
        moreover have "list_ex setup_failure (a @ es)" using d2(5) by simp
        moreover have "execute_nonbuiltin env s p = (Exited 1, q)"
          using o1(1) d2(1) by (simp add: execute_nonbuiltin_blocks)
        ultimately show ?thesis by (intro died [of q "a @ es"])
      next
        case o2
        note B = stage_props [OF o2(2)]
        from block_cases [where cfg = "s_err s" and path = "s_in s"
            and flags = "{O_CREAT, O_RDWR, O_TRUNC}" and mode = "Some mode_0664"
            and std = STDERR and ?p0.0 = pb and env = env]
        consider (d3) q es where
            "(case s_err s of None \<Rightarrow> Inr pb
              | Some n \<Rightarrow> redirect env (s_in s) n {O_CREAT, O_RDWR, O_TRUNC} (Some mode_0664)
                  STDERR pb) = Inl (Exited 1, q)"
            "steps pb es q" "list_all plain es" "fatal_failures es (Some (Exited 1))"
            "list_ex setup_failure es"
          | (o3) pc c where
            "(case s_err s of None \<Rightarrow> Inr pb
              | Some n \<Rightarrow> redirect env (s_in s) n {O_CREAT, O_RDWR, O_TRUNC} (Some mode_0664)
                  STDERR pb) = Inr pc"
            "stage (s_err s) (s_in s) {O_CREAT, O_RDWR, O_TRUNC} (Some mode_0664) STDERR pb c pc"
          by auto
        then show ?thesis
        proof cases
          case d3
          have "steps p (a @ b @ es) q"
            using A(1) B(1) d3(2) by (blast intro: steps_trans)
          moreover have "list_all plain (a @ b @ es)" using A(3) B(3) d3(3) by simp
          moreover have "fatal_failures (a @ b @ es) (Some (Exited 1))"
            using A(4) B(4) d3(4) by (simp add: fatal_failures_clean)
          moreover have "list_ex setup_failure (a @ b @ es)" using d3(5) by simp
          moreover have "execute_nonbuiltin env s p = (Exited 1, q)"
            using o1(1) o2(1) d3(1) by (simp add: execute_nonbuiltin_blocks)
          ultimately show ?thesis by (intro died [of q "a @ b @ es"])
        next
          case o3
          have "execute_nonbuiltin env s p = execute_command env (tokens s) pc"
            using o1(1) o2(1) o3(1) by (simp add: execute_nonbuiltin_blocks)
          then show ?thesis using o1(2) o2(2) o3(2) by (rule exec)
        qed
      qed
    qed
  qed
qed


lemma exec_attempt_plain: "list_all plain es \<Longrightarrow> \<not> list_ex exec_attempt es"
  using plain_quiet by blast


lemma execute_command_events:
  assumes "execute_command env toks p = (e, q)"
  obtains x where "steps p x q" "x \<noteq> []" "exec_attempt (hd x)" "\<not> list_ex setup_failure x"
    "e \<noteq> Exited 0" "forked x = []" "pipes x = []" "waited x = []"
    "\<not> list_ex fork_attempt x"
  using assms
  by (cases rule: execute_command_cases [of toks env p]) (auto simp: steps_def)



text \<open>
  Claim C2. With \<^verbatim>\<open>in\<close> and \<^verbatim>\<open>err\<close> both set, the block for standard error
  opens the file named by \<^verbatim>\<open>in\<close> (and truncates it): standard error ends up on
  \<^verbatim>\<open>in.txt\<close>, and \<^verbatim>\<open>err.txt\<close> is never opened.
\<close>

theorem stderr_redirection_opens_input:
  "execute_nonbuiltin env_ok err_to_file shell0 =
     (Execed [''ls''],
      shell0\<lparr>fds := [Some (File ''in.txt'' {O_RDONLY} None), Some (Inherited 1),
                      Some (File ''in.txt'' {O_CREAT, O_RDWR, O_TRUNC} (Some mode_0664)), None],
             trace := [Sys (Open (Some ''in.txt'') {O_RDONLY} None) (RFd 3),
                       Sys (Dup2 3 0) ROk, Sys (Close 3) ROk,
                       Sys (Open (Some ''in.txt'') {O_CREAT, O_RDWR, O_TRUNC} (Some mode_0664)) (RFd 3),
                       Sys (Dup2 3 2) ROk, Sys (Close 3) ROk,
                       Sys (Execvp (Some ''ls'') [''ls'']) ROk]\<rparr>)"
  by (simp add: execute_nonbuiltin_blocks redirect_def sys_open_def sys_dup2_def sys_close_def
      execute_command_def err_to_file_def shell0_def env_ok_def failing_def log_def
      fd_alloc_def fd_set_def fd_lookup_def STDIN_def STDOUT_def STDERR_def Let_def)

lemma list_ex_append_iff [simp]: "list_ex P (xs @ ys) \<longleftrightarrow> list_ex P xs \<or> list_ex P ys"
  by (induction xs) simp_all

lemma execute_nonbuiltin_summary:
  assumes "execute_nonbuiltin env s p = (e, q)"
  obtains es where "steps p es q" "fatal_failures es (Some e)" "forked es = []"
    "pipes es = []" "waited es = []" "e \<noteq> Exited 0" "\<not> list_ex fork_attempt es"
proof (cases rule: execute_nonbuiltin_cases [of env s p])
  case (died q' es)
  with assms have "e = Exited 1" "q' = q" by simp_all
  with died plain_quiet [OF died(3)] show ?thesis by (intro that [of es]) simp_all
next
  case (exec pa pb pc a b c)
  note A = stage_props [OF exec(2)] and B = stage_props [OF exec(3)]
    and C = stage_props [OF exec(4)]
  from exec(1) assms have ec: "execute_command env (tokens s) pc = (e, q)" by simp
  then obtain x where x: "steps pc x q" "\<not> list_ex setup_failure x" "e \<noteq> Exited 0"
    "forked x = []" "pipes x = []" "waited x = []" "\<not> list_ex fork_attempt x"
    by (rule execute_command_events)
  have "steps p (a @ b @ c @ x) q"
    using A(1) B(1) C(1) x(1) by (blast intro: steps_trans)
  moreover have "fatal_failures (a @ b @ c @ x) (Some e)"
    using A(4) B(4) C(4) x(2) by (intro fatal_failures_none) simp
  moreover have "forked (a @ b @ c @ x) = []" "pipes (a @ b @ c @ x) = []"
    "waited (a @ b @ c @ x) = []" "\<not> list_ex fork_attempt (a @ b @ c @ x)"
    using plain_quiet [OF A(3)] plain_quiet [OF B(3)] plain_quiet [OF C(3)] x by simp_all
  ultimately show ?thesis using x(3) by (intro that [of "a @ b @ c @ x"])
qed

lemma sys_fork_cases:
  obtains (fail) "failing env p" "sys_fork env child p = (None, log (Sys Fork RFail) p)"
  | (ok) c e q where "\<not> failing env p" "c = pid p @ [length (trace p)]"
      "child (p\<lparr>pid := c, trace := [], procs := []\<rparr>) = (e, q)"
      "sys_fork env child p =
         (Some c, log (Sys Fork (RPid c))
            (p\<lparr>procs := procs p @ \<lparr>pe_pid = c, pe_trace = trace q, pe_end = e\<rparr> # procs q\<rparr>))"
proof (cases "failing env p")
  case True
  then show ?thesis by (intro fail) (simp_all add: sys_fork_def)
next
  case False
  obtain e q where "child (p\<lparr>pid := pid p @ [length (trace p)], trace := [], procs := []\<rparr>) = (e, q)"
    by (cases "child (p\<lparr>pid := pid p @ [length (trace p)], trace := [], procs := []\<rparr>)") auto
  with False show ?thesis
    by (intro ok [of "pid p @ [length (trace p)]" e q]) (simp_all add: sys_fork_def Let_def)
qed

lemma sys_wait_cases:
  obtains (fail) "failing env p" "sys_wait env p = (False, log (Sys Wait RFail) p)"
  | (ok) "\<not> failing env p" "sys_wait env p = (True, log (Sys Wait ROk) p)"
  by (cases "failing env p") (simp_all add: sys_wait_def)

lemma execute_simple_command_external:
  assumes "builtin s = BUILTIN_NONE"
  obtains (nofork) "failing env p"
      "execute_simple_command env s p = Returns 0 (perror ''fork'' (log (Sys Fork RFail) p))"
  | (forked) c e q p1 es where "\<not> failing env p" "c = pid p @ [length (trace p)]"
      "execute_nonbuiltin env s (p\<lparr>pid := c, trace := [], procs := []\<rparr>) = (e, q)"
      "execute_simple_command env s p = Returns 0 p1"
      "trace p1 = trace p @ Sys Fork (RPid c) # es"
      "es = [Sys Wait ROk] \<or> es = [Sys Wait RFail, Perror ''wait'']"
      "procs p1 = procs p @ [\<lparr>pe_pid = c, pe_trace = trace q, pe_end = e\<rparr>]"
      "fds p1 = fds p" "pid p1 = pid p" "cwd p1 = cwd p"
proof (cases rule: sys_fork_cases [of env p "execute_nonbuiltin env s"])
  case fail
  with assms show ?thesis by (intro nofork) (simp_all add: execute_simple_command_def)
next
  case (ok c e q)
  from ok(3) obtain es where "steps (p\<lparr>pid := c, trace := [], procs := []\<rparr>) es q"
    by (rule execute_nonbuiltin_summary)
  then have pq: "procs q = []" by (simp add: steps_def)
  let ?p1 = "log (Sys Fork (RPid c))
            (p\<lparr>procs := procs p @ \<lparr>pe_pid = c, pe_trace = trace q, pe_end = e\<rparr> # procs q\<rparr>)"
  show ?thesis
  proof (cases rule: sys_wait_cases [of env ?p1])
    case fail
    with ok assms pq show ?thesis
      by (intro forked [of c e q "perror ''wait'' (log (Sys Wait RFail) ?p1)"
            "[Sys Wait RFail, Perror ''wait'']"])
        (simp_all add: execute_simple_command_def)
  next
    case ok': ok
    with ok assms pq show ?thesis
      by (intro forked [of c e q "log (Sys Wait ROk) ?p1" "[Sys Wait ROk]"])
        (simp_all add: execute_simple_command_def)
  qed
qed

text \<open>
  Claim C8. \<^verbatim>\<open>execute_nonbuiltin\<close> either fails in a redirection call, and then the
  process exits with status 1 without reaching \<^verbatim>\<open>execvp\<close>, or reaches
  \<^verbatim>\<open>execvp\<close>, and then each redirection that is set has done its \<^verbatim>\<open>open\<close>,
  \<^verbatim>\<open>dup2\<close> and \<^verbatim>\<open>close\<close> before, in the order input, output, error. The parent
  in \<^verbatim>\<open>execute_simple_command\<close> calls \<^verbatim>\<open>fork\<close> once and returns 0 with its
  descriptors unchanged, whatever the child did; the child's end is only recorded in the
  child's entry.
\<close>

theorem redirection_failure_confined:
  "(\<exists>e q es. execute_nonbuiltin env s p = (e, q) \<and> trace q = trace p @ es \<and>
      (list_ex setup_failure es \<or> list_ex exec_attempt es) \<and>
      (list_ex setup_failure es \<longrightarrow> e = Exited 1 \<and> \<not> list_ex exec_attempt es) \<and>
      (list_ex exec_attempt es \<longrightarrow>
         (\<exists>a b c x. es = a @ b @ c @ x \<and> block_done (s_in s) STDIN a \<and>
            block_done (s_out s) STDOUT b \<and> block_done (s_err s) STDERR c \<and>
            \<not> list_ex exec_attempt (a @ b @ c)))) \<and>
   (builtin s = BUILTIN_NONE \<longrightarrow>
      (\<exists>p1 es. execute_simple_command env s p = Returns 0 p1 \<and> trace p1 = trace p @ es \<and>
         length (filter fork_attempt es) = 1 \<and> fds p1 = fds p \<and>
         (\<not> failing env p \<longrightarrow>
            (\<exists>c e q. execute_nonbuiltin env s (p\<lparr>pid := c, trace := [], procs := []\<rparr>) = (e, q) \<and>
               procs p1 = procs p @ [\<lparr>pe_pid = c, pe_trace = trace q, pe_end = e\<rparr>]))))"
proof (intro conjI impI)
  show "\<exists>e q es. execute_nonbuiltin env s p = (e, q) \<and> trace q = trace p @ es \<and>
      (list_ex setup_failure es \<or> list_ex exec_attempt es) \<and>
      (list_ex setup_failure es \<longrightarrow> e = Exited 1 \<and> \<not> list_ex exec_attempt es) \<and>
      (list_ex exec_attempt es \<longrightarrow>
         (\<exists>a b c x. es = a @ b @ c @ x \<and> block_done (s_in s) STDIN a \<and>
            block_done (s_out s) STDOUT b \<and> block_done (s_err s) STDERR c \<and>
            \<not> list_ex exec_attempt (a @ b @ c)))"
  proof (cases rule: execute_nonbuiltin_cases [of env s p])
    case (died q es)
    then show ?thesis
      using exec_attempt_plain [OF died(3)]
      by (intro exI [of _ "Exited 1"] exI [of _ q] exI [of _ es]) (simp add: steps_def)
  next
    case (exec pa pb pc a b c)
    note A = stage_props [OF exec(2)] and B = stage_props [OF exec(3)]
      and C = stage_props [OF exec(4)]
    obtain e q where ec: "execute_command env (tokens s) pc = (e, q)"
      by (cases "execute_command env (tokens s) pc") auto
    then obtain x where x: "steps pc x q" "x \<noteq> []" "exec_attempt (hd x)"
      "\<not> list_ex setup_failure x"
      by (rule execute_command_events)
    from x(2,3) have ex: "list_ex exec_attempt x" by (cases x) simp_all
    have tr: "trace q = trace p @ a @ b @ c @ x"
      using A(1) B(1) C(1) x(1) by (simp add: steps_def)
    have nf: "\<not> list_ex setup_failure (a @ b @ c @ x)" using A(4) B(4) C(4) x(4) by simp
    have ne: "\<not> list_ex exec_attempt (a @ b @ c)"
      using exec_attempt_plain [OF A(3)] exec_attempt_plain [OF B(3)]
        exec_attempt_plain [OF C(3)] by simp
    show ?thesis
      using exec(1) ec tr nf ne ex A(2) B(2) C(2)
      by (intro exI [of _ e] exI [of _ q] exI [of _ "a @ b @ c @ x"]) auto
  qed
next
  assume b: "builtin s = BUILTIN_NONE"
  show "\<exists>p1 es. execute_simple_command env s p = Returns 0 p1 \<and> trace p1 = trace p @ es \<and>
         length (filter fork_attempt es) = 1 \<and> fds p1 = fds p \<and>
         (\<not> failing env p \<longrightarrow>
            (\<exists>c e q. execute_nonbuiltin env s (p\<lparr>pid := c, trace := [], procs := []\<rparr>) = (e, q) \<and>
               procs p1 = procs p @ [\<lparr>pe_pid = c, pe_trace = trace q, pe_end = e\<rparr>]))"
    using b
  proof (cases rule: execute_simple_command_external [of s env p])
    case nofork
    then show ?thesis
      by (intro exI [of _ "perror ''fork'' (log (Sys Fork RFail) p)"]
          exI [of _ "[Sys Fork RFail, Perror ''fork'']"]) simp
  next
    case (forked c e q p1 es)
    then show ?thesis
      by (intro exI [of _ p1] exI [of _ "Sys Fork (RPid c) # es"]) auto
  qed
qed


theorem redirection_failure_confined_witness:
  "execute_nonbuiltin env_dup2_fails out_to_file (shell0\<lparr>pid := [0]\<rparr>) =
     (Exited 1,
      shell0\<lparr>pid := [0],
             fds := [Some (Inherited 0), Some (Inherited 1), Some (Inherited 2),
                     Some (File ''out.txt'' {O_CREAT, O_RDWR, O_TRUNC} (Some mode_0664))],
             trace := [Sys (Open (Some ''out.txt'') {O_CREAT, O_RDWR, O_TRUNC} (Some mode_0664)) (RFd 3),
                       Sys (Dup2 3 1) RFail, Perror ''dup2'']\<rparr>) \<and>
   execute_simple_command env_dup2_fails out_to_file shell0 =
     Returns 0
       (shell0\<lparr>trace := [Sys Fork (RPid [0]), Sys Wait ROk],
               procs := [\<lparr>pe_pid = [0],
                          pe_trace = [Sys (Open (Some ''out.txt'') {O_CREAT, O_RDWR, O_TRUNC}
                                             (Some mode_0664)) (RFd 3),
                                      Sys (Dup2 3 1) RFail, Perror ''dup2''],
                          pe_end = Exited 1\<rparr>]\<rparr>)"
  using redirection_failure_confined [of env_dup2_fails out_to_file "shell0\<lparr>pid := [0]\<rparr>"]
  by (simp add: execute_nonbuiltin_blocks redirect_def sys_open_def sys_dup2_def sys_close_def
      execute_command_def out_to_file_def shell0_def env_dup2_fails_def failing_def log_def
      fd_alloc_def fd_set_def fd_lookup_def STDIN_def STDOUT_def STDERR_def Let_def
      execute_simple_command_def sys_fork_def sys_wait_def die_def perror_def)

section \<open>Pipelines\<close>

lemma sys_pipe_cases:
  obtains (fail) "failing env p" "sys_pipe env p = (None, log (Sys Pipe RFail) p)"
  | (ok) r w p1 where "\<not> failing env p" "sys_pipe env p = (Some (r, w), p1)"
      "steps p [Sys Pipe (RPipe r w)] p1" "r \<noteq> w"
      "fd_lookup (fds p) r = None" "fd_lookup (fds p) w = None"
      "fd_lookup (fds p1) r \<noteq> None" "fd_lookup (fds p1) w \<noteq> None"
      "\<And>n. n \<noteq> r \<Longrightarrow> n \<noteq> w \<Longrightarrow> fd_lookup (fds p1) n = fd_lookup (fds p) n"
proof (cases "failing env p")
  case True
  then show ?thesis by (intro fail) (simp_all add: sys_pipe_def)
next
  case False
  let ?r = "fd_alloc (fds p)"
  let ?t = "fd_set (fds p) ?r (Some (PipeRead (pid p) (length (trace p))))"
  let ?w = "fd_alloc ?t"
  let ?p1 = "log (Sys Pipe (RPipe ?r ?w))
                 (p\<lparr>fds := fd_set ?t ?w (Some (PipeWrite (pid p) (length (trace p))))\<rparr>)"
  have 1: "sys_pipe env p = (Some (?r, ?w), ?p1)"
    using False by (simp add: sys_pipe_def Let_def)
  have r: "fd_lookup (fds p) ?r = None" by (rule fd_lookup_alloc)
  have "fd_lookup ?t ?w = None" by (rule fd_lookup_alloc)
  then have w: "?r \<noteq> ?w \<and> fd_lookup (fds p) ?w = None"
    by (auto simp: fd_lookup_set split: if_splits)
  show ?thesis
    using False 1 r w
    by (intro ok [of ?r ?w ?p1]) (simp_all add: steps_def fd_lookup_set)
qed

lemma sys_close_cases:
  obtains (fail) "sys_close env fd p = (False, log (Sys (Close fd) RFail) p)"
  | (ok) "\<not> failing env p" "fd_lookup (fds p) fd \<noteq> None"
      "sys_close env fd p = (True, log (Sys (Close fd) ROk) (p\<lparr>fds := fd_set (fds p) fd None\<rparr>))"
  by (cases "failing env p \<or> fd_lookup (fds p) fd = None") (auto simp: sys_close_def)

lemma sys_dup2_cases:
  obtains (fail) "sys_dup2 env oldfd newfd p = (False, log (Sys (Dup2 oldfd newfd) RFail) p)"
  | (ok) "\<not> failing env p" "fd_lookup (fds p) oldfd \<noteq> None"
      "sys_dup2 env oldfd newfd p =
         (True, log (Sys (Dup2 oldfd newfd) ROk)
            (p\<lparr>fds := fd_set (fds p) newfd (fd_lookup (fds p) oldfd)\<rparr>))"
  by (cases "failing env p \<or> fd_lookup (fds p) oldfd = None") (auto simp: sys_dup2_def)

lemma sys_waitpid_cases:
  obtains (fail) "sys_waitpid env c p = (False, log (Sys (Waitpid c) RFail) p)"
  | (ok) "\<not> failing env p" "sys_waitpid env c p = (True, log (Sys (Waitpid c) ROk) p)"
  by (cases "failing env p") (auto simp: sys_waitpid_def)

lemma pipe_child_cases:
  obtains (dead) q es where "pipe_child env a b std run p = (Exited 1, q)" "steps p es q"
      "list_all plain es" "fatal_failures es (Some (Exited 1))" "list_ex setup_failure es"
  | (run) q3 where "pipe_child env a b std run p = then_exit 0 (run q3)"
      "steps p [Sys (Close a) ROk, Sys (Dup2 b std) ROk, Sys (Close b) ROk] q3"
proof (cases rule: sys_close_cases [of env a p])
  case fail
  then show ?thesis
    by (intro dead [of "perror ''close'' (log (Sys (Close a) RFail) p)"
          "[Sys (Close a) RFail, Perror ''close'']"])
      (simp_all add: pipe_child_def die_def steps_def)
next
  case ok
  let ?p1 = "log (Sys (Close a) ROk) (p\<lparr>fds := fd_set (fds p) a None\<rparr>)"
  show ?thesis
  proof (cases rule: sys_dup2_cases [of env b std ?p1])
    case fail
    with ok(3) show ?thesis
      by (intro dead [of "perror ''dup2'' (log (Sys (Dup2 b std) RFail) ?p1)"
            "[Sys (Close a) ROk, Sys (Dup2 b std) RFail, Perror ''dup2'']"])
        (simp_all add: pipe_child_def die_def steps_def)
  next
    case ok2: ok
    let ?p2 = "log (Sys (Dup2 b std) ROk)
            (?p1\<lparr>fds := fd_set (fds ?p1) std (fd_lookup (fds ?p1) b)\<rparr>)"
    show ?thesis
    proof (cases rule: sys_close_cases [of env b ?p2])
      case fail
      with ok(3) ok2(3) show ?thesis
        by (intro dead [of "perror ''close'' (log (Sys (Close b) RFail) ?p2)"
              "[Sys (Close a) ROk, Sys (Dup2 b std) ROk, Sys (Close b) RFail, Perror ''close'']"])
          (simp_all add: pipe_child_def die_def steps_def)
    next
      case ok3: ok
      with ok(3) ok2(3) show ?thesis
        by (intro run [of "log (Sys (Close b) ROk) (?p2\<lparr>fds := fd_set (fds ?p2) b None\<rparr>)"])
          (simp_all add: pipe_child_def steps_def)
    qed
  qed
qed

lemma pipe_parent_cases:
  obtains (dead) q es where "pipe_parent env r w c1 c2 p = Halts (Exited 1) q" "steps p es q"
      "fatal_failures es (Some (Exited 1))" "forked es = []" "pipes es = []"
  | (ok) q where "pipe_parent env r w c1 c2 p = Returns 0 q"
      "steps p [Sys (Close r) ROk, Sys (Close w) ROk, Sys (Waitpid c1) ROk, Sys (Waitpid c2) ROk] q"
      "fds q = fd_set (fd_set (fds p) r None) w None"
proof (cases rule: sys_close_cases [of env r p])
  case fail
  then show ?thesis
    by (intro dead [of "perror ''close'' (log (Sys (Close r) RFail) p)"
          "[Sys (Close r) RFail, Perror ''close'']"])
      (simp_all add: pipe_parent_def die_def halt_def steps_def)
next
  case ok1: ok
  let ?p4 = "log (Sys (Close r) ROk) (p\<lparr>fds := fd_set (fds p) r None\<rparr>)"
  show ?thesis
  proof (cases rule: sys_close_cases [of env w ?p4])
    case fail
    with ok1(3) show ?thesis
      by (intro dead [of "perror ''close'' (log (Sys (Close w) RFail) ?p4)"
            "[Sys (Close r) ROk, Sys (Close w) RFail, Perror ''close'']"])
        (simp_all add: pipe_parent_def die_def halt_def steps_def)
  next
    case ok2: ok
    let ?p5 = "log (Sys (Close w) ROk) (?p4\<lparr>fds := fd_set (fds ?p4) w None\<rparr>)"
    show ?thesis
    proof (cases rule: sys_waitpid_cases [of env c1 ?p5])
      case fail
      with ok1(3) ok2(3) show ?thesis
        by (intro dead [of "perror ''waitpid'' (log (Sys (Waitpid c1) RFail) ?p5)"
              "[Sys (Close r) ROk, Sys (Close w) ROk, Sys (Waitpid c1) RFail, Perror ''waitpid'']"])
          (simp_all add: pipe_parent_def die_def halt_def steps_def)
    next
      case ok3: ok
      let ?p6 = "log (Sys (Waitpid c1) ROk) ?p5"
      show ?thesis
      proof (cases rule: sys_waitpid_cases [of env c2 ?p6])
        case fail
        with ok1(3) ok2(3) ok3(2) show ?thesis
          by (intro dead [of "perror ''waitpid'' (log (Sys (Waitpid c2) RFail) ?p6)"
                "[Sys (Close r) ROk, Sys (Close w) ROk, Sys (Waitpid c1) ROk,
                  Sys (Waitpid c2) RFail, Perror ''waitpid'']"])
            (simp_all add: pipe_parent_def die_def halt_def steps_def)
      next
        case ok4: ok
        with ok1(3) ok2(3) ok3(2) show ?thesis
          by (intro ok [of "log (Sys (Waitpid c2) ROk) ?p6"])
            (simp_all add: pipe_parent_def steps_def)
      qed
    qed
  qed
qed

lemma node_cases:
  fixes env cmd1 cmd2 p
  defines "node \<equiv> execute_complex_command env (Node ''|'' cmd1 cmd2) p"
  obtains (pipe_failed) "failing env p"
      "node = Halts (Exited 1) (perror ''pipe'' (log (Sys Pipe RFail) p))"
  | (fork1_failed) r w p1 where "steps p [Sys Pipe (RPipe r w)] p1" "failing env p1"
      "node = Halts (Exited 1) (perror ''fork'' (log (Sys Fork RFail) p1))"
  | (fork2_failed) r w p1 c1 e1 q1 p2 where "steps p [Sys Pipe (RPipe r w)] p1"
      "pipe_child env r w STDOUT (execute_complex_command env cmd1)
         (p1\<lparr>pid := c1, trace := [], procs := []\<rparr>) = (e1, q1)"
      "trace p2 = trace p1 @ [Sys Fork (RPid c1)]"
      "procs p2 = procs p1 @ \<lparr>pe_pid = c1, pe_trace = trace q1, pe_end = e1\<rparr> # procs q1"
      "pid p2 = pid p1" "failing env p2"
      "node = Halts (Exited 1) (perror ''fork'' (log (Sys Fork RFail) p2))"
  | (parent) r w p1 c1 e1 q1 c2 e2 q2 p3 where
      "steps p [Sys Pipe (RPipe r w)] p1" "r \<noteq> w"
      "fd_lookup (fds p) r = None" "fd_lookup (fds p) w = None"
      "fd_lookup (fds p1) r \<noteq> None" "fd_lookup (fds p1) w \<noteq> None"
      "\<And>n. n \<noteq> r \<Longrightarrow> n \<noteq> w \<Longrightarrow> fd_lookup (fds p1) n = fd_lookup (fds p) n"
      "pipe_child env r w STDOUT (execute_complex_command env cmd1)
         (p1\<lparr>pid := c1, trace := [], procs := []\<rparr>) = (e1, q1)"
      "pipe_child env w r STDIN (execute_complex_command env cmd2)
         (p1\<lparr>pid := c2, trace := [], procs := []\<rparr>) = (e2, q2)"
      "trace p3 = trace p @ [Sys Pipe (RPipe r w), Sys Fork (RPid c1), Sys Fork (RPid c2)]"
      "procs p3 = procs p @ \<lparr>pe_pid = c1, pe_trace = trace q1, pe_end = e1\<rparr> # procs q1 @
         \<lparr>pe_pid = c2, pe_trace = trace q2, pe_end = e2\<rparr> # procs q2"
      "pid p3 = pid p" "cwd p3 = cwd p" "fds p3 = fds p1"
      "node = pipe_parent env r w c1 c2 p3"
      "c1 = pid p @ [Suc (length (trace p))]" "c2 = pid p @ [Suc (Suc (length (trace p)))]"
proof (cases rule: sys_pipe_cases [of env p])
  case fail
  then show ?thesis
    by (intro pipe_failed) (simp_all add: node_def execute_complex_command_blocks halt_def die_def)
next
  case (ok r w p1)
  note pipe = ok
  let ?child1 = "pipe_child env r w STDOUT (execute_complex_command env cmd1)"
  let ?child2 = "pipe_child env w r STDIN (execute_complex_command env cmd2)"
  show ?thesis
  proof (cases rule: sys_fork_cases [of env p1 ?child1])
    case fail
    with pipe show ?thesis
      by (intro fork1_failed [of r w p1])
        (simp_all add: node_def execute_complex_command_blocks halt_def die_def)
  next
    case (ok c1 e1 q1)
    note fork1 = ok
    let ?p2 = "log (Sys Fork (RPid c1))
            (p1\<lparr>procs := procs p1 @ \<lparr>pe_pid = c1, pe_trace = trace q1, pe_end = e1\<rparr> # procs q1\<rparr>)"
    show ?thesis
    proof (cases rule: sys_fork_cases [of env ?p2 ?child2])
      case fail
      with pipe fork1 show ?thesis
        by (intro fork2_failed [of r w p1 c1 e1 q1 ?p2])
          (simp_all add: node_def execute_complex_command_blocks halt_def die_def)
    next
      case (ok c2 e2 q2)
      let ?p3 = "log (Sys Fork (RPid c2))
            (?p2\<lparr>procs := procs ?p2 @ \<lparr>pe_pid = c2, pe_trace = trace q2, pe_end = e2\<rparr> # procs q2\<rparr>)"
      have ch2: "?child2 (p1\<lparr>pid := c2, trace := [], procs := []\<rparr>) = (e2, q2)"
        using ok(3) by (simp add: log_def)
      have n: "node = pipe_parent env r w c1 c2 ?p3"
        using pipe(2) fork1(4) ok(4)
        by (simp add: node_def execute_complex_command_blocks)
      have c: "c1 = pid p @ [Suc (length (trace p))]" "c2 = pid p @ [Suc (Suc (length (trace p)))]"
        using pipe(3) fork1(2) ok(2) by (simp_all add: steps_def)
      show ?thesis
        using pipe fork1(3) ch2 n c
        by (intro parent [of r w p1 c1 e1 q1 c2 e2 q2 ?p3])
          (simp_all add: steps_def)
    qed
  qed
qed

lemma closes_append [simp]: "closes (es @ fs) = closes es @ closes fs"
  by (induction es rule: closes.induct) simp_all

lemma execute_simple_command_parent:
  assumes "execute_simple_command env s p = Returns v q"
  shows "fds q = fds p \<and>
    (\<exists>es. trace q = trace p @ es \<and> \<not> list_ex is_dup2 es \<and> closes es = [] \<and> pipes es = [])"
proof (cases "builtin s")
  case BUILTIN_EXIT
  with assms show ?thesis by (simp add: execute_simple_command_def)
next
  case BUILTIN_CD
  obtain r p1 where cd: "execute_cd env (tokens s) p = Returns r p1"
    using execute_cd_returns [of env "tokens s" p]
    by (cases "execute_cd env (tokens s) p") auto
  from execute_cd_effect [OF cd] obtain es where
    es: "fds p1 = fds p" "trace p1 = trace p @ es" "\<not> list_ex is_dup2 es" "closes es = []"
      "pipes es = []"
    by auto
  from assms BUILTIN_CD cd
  consider "q = p1" | m where "q = log (Perror m) p1" | m where "q = log (Fprintf_stderr m) p1"
    by (auto simp: execute_simple_command_def perror_def split: if_splits)
  then show ?thesis
  proof cases
    case 1
    with es show ?thesis by auto
  next
    case 2
    with es show ?thesis by (intro conjI exI [of _ "es @ [Perror m]"]) simp_all
  next
    case 3
    with es show ?thesis by (intro conjI exI [of _ "es @ [Fprintf_stderr m]"]) simp_all
  qed
next
  case BUILTIN_NONE
  then show ?thesis
  proof (cases rule: execute_simple_command_external [of s env p])
    case nofork
    with assms show ?thesis
      by (intro conjI exI [of _ "[Sys Fork RFail, Perror ''fork'']"]) auto
  next
    case (forked c e q' p1 es)
    with assms show ?thesis
      by (intro conjI exI [of _ "Sys Fork (RPid c) # es"]) auto
  qed
qed

lemma execute_complex_command_parent:
  assumes "execute_complex_command env (Node oper cmd1 cmd2) p = Returns v q"
  shows "fd_lookup (fds q) = fd_lookup (fds p) \<and>
    (\<exists>es. trace q = trace p @ es \<and> \<not> list_ex is_dup2 es \<and> closes es = pipe_ends (pipes es))"
proof (cases "oper = ''|''")
  case False
  with assms show ?thesis by (simp add: execute_complex_command_blocks pipe_ends_def)
next
  case True
  show ?thesis
  proof (cases rule: node_cases [of env p cmd1 cmd2])
    case pipe_failed
    with assms True show ?thesis by simp
  next
    case (fork1_failed r w p1)
    with assms True show ?thesis by simp
  next
    case (fork2_failed r w p1 c1 e1 q1 p2)
    with assms True show ?thesis by simp
  next
    case (parent r w p1 c1 e1 q1 c2 e2 q2 p3)
    show ?thesis
    proof (cases rule: pipe_parent_cases [of env r w c1 c2 p3])
      case (dead q' es)
      with assms True parent(15) show ?thesis by simp
    next
      case (ok q')
      with assms True parent(15) have q: "q' = q" by simp
      have "fd_lookup (fds q) n = fd_lookup (fds p) n" for n
        using ok(3) parent(2-7,14) by (auto simp: q fd_lookup_set)
      then have 1: "fd_lookup (fds q) = fd_lookup (fds p)" by (simp add: fun_eq_iff)
      have 2: "trace q = trace p @ [Sys Pipe (RPipe r w), Sys Fork (RPid c1), Sys Fork (RPid c2),
          Sys (Close r) ROk, Sys (Close w) ROk, Sys (Waitpid c1) ROk, Sys (Waitpid c2) ROk]"
        using ok(2) parent(10) by (simp add: q steps_def)
      show ?thesis
        using 1 2
        by (intro conjI exI [of _ "[Sys Pipe (RPipe r w), Sys Fork (RPid c1), Sys Fork (RPid c2),
          Sys (Close r) ROk, Sys (Close w) ROk, Sys (Waitpid c1) ROk, Sys (Waitpid c2) ROk]"])
          (simp_all add: pipe_ends_def)
    qed
  qed
qed

text \<open>
  Claim C7. When one turn of the loop returns, every descriptor of the interpreter, and
  so its standard input, output and error, refers to what it referred to before; the
  interpreter itself called no \<^verbatim>\<open>dup2\<close>, and the descriptors it closed are the two
  ends of the pipe it created, if it created one.
\<close>

theorem parent_descriptors_unchanged:
  assumes "dispatch env cmd p = Returns v q"
  shows "fd_lookup (fds q) STDIN = fd_lookup (fds p) STDIN \<and>
         fd_lookup (fds q) STDOUT = fd_lookup (fds p) STDOUT \<and>
         fd_lookup (fds q) STDERR = fd_lookup (fds p) STDERR \<and>
         fd_lookup (fds q) = fd_lookup (fds p) \<and>
         (\<exists>es. trace q = trace p @ es \<and> \<not> list_ex is_dup2 es \<and>
               closes es = pipe_ends (pipes es))"
proof (cases cmd)
  case (Leaf s)
  with assms have "execute_simple_command env s p = Returns v q" by (simp add: dispatch_def)
  from execute_simple_command_parent [OF this] show ?thesis
    by (auto simp: pipe_ends_def)
next
  case (Node oper cmd1 cmd2)
  with assms have "execute_complex_command env (Node oper cmd1 cmd2) p = Returns v q"
    by (simp add: dispatch_def)
  from execute_complex_command_parent [OF this] show ?thesis by auto
qed

lemmas eval_defs = sys_pipe_def sys_close_def sys_dup2_def sys_waitpid_def sys_wait_def sys_open_def
  failing_def log_def halt_def die_def perror_def
  fd_alloc_def fd_set_def fd_lookup_def STDIN_def STDOUT_def STDERR_def

lemma sys_fork_ok:
  assumes "\<not> failing env p" and "c = pid p @ [length (trace p)]"
    and "child (p\<lparr>pid := c, trace := [], procs := []\<rparr>) = (e, q)"
  shows "sys_fork env child p =
     (Some c, log (Sys Fork (RPid c))
        (p\<lparr>procs := procs p @ \<lparr>pe_pid = c, pe_trace = trace q, pe_end = e\<rparr> # procs q\<rparr>))"
  using assms by (simp add: sys_fork_def Let_def)

lemma two_stage_run:
  "dispatch env_ok two_stage shell0 =
     Returns 0
       (shell0\<lparr>fds := [Some (Inherited 0), Some (Inherited 1), Some (Inherited 2), None, None],
               trace := [Sys Pipe (RPipe 3 4), Sys Fork (RPid [1]), Sys Fork (RPid [2]),
                         Sys (Close 3) ROk, Sys (Close 4) ROk,
                         Sys (Waitpid [1]) ROk, Sys (Waitpid [2]) ROk],
               procs := [\<lparr>pe_pid = [1],
                          pe_trace = [Sys (Close 3) ROk, Sys (Dup2 4 1) ROk, Sys (Close 4) ROk,
                                      Sys (Execvp (Some ''cat'') [''cat'', ''f'']) ROk],
                          pe_end = Execed [''cat'', ''f'']\<rparr>,
                         \<lparr>pe_pid = [2],
                          pe_trace = [Sys (Close 4) ROk, Sys (Dup2 3 0) ROk, Sys (Close 3) ROk,
                                      Sys (Execvp (Some ''wc'') [''wc'', ''-l'']) ROk],
                          pe_end = Execed [''wc'', ''-l'']\<rparr>]\<rparr>)"
proof -
  let ?t = "[Some (Inherited 0), Some (Inherited 1), Some (Inherited 2),
             Some (PipeRead [] 0), Some (PipeWrite [] 0)]"
  let ?e1 = "\<lparr>pe_pid = [1],
                pe_trace = [Sys (Close 3) ROk, Sys (Dup2 4 1) ROk, Sys (Close 4) ROk,
                            Sys (Execvp (Some ''cat'') [''cat'', ''f'']) ROk],
                pe_end = Execed [''cat'', ''f'']\<rparr>"
  let ?e2 = "\<lparr>pe_pid = [2],
                pe_trace = [Sys (Close 4) ROk, Sys (Dup2 3 0) ROk, Sys (Close 3) ROk,
                            Sys (Execvp (Some ''wc'') [''wc'', ''-l'']) ROk],
                pe_end = Execed [''wc'', ''-l'']\<rparr>"
  let ?P1 = "shell0\<lparr>fds := ?t, trace := [Sys Pipe (RPipe 3 4)]\<rparr>"
  let ?P2 = "shell0\<lparr>fds := ?t, trace := [Sys Pipe (RPipe 3 4), Sys Fork (RPid [1])],
                    procs := [?e1]\<rparr>"
  let ?P3 = "shell0\<lparr>fds := ?t,
                    trace := [Sys Pipe (RPipe 3 4), Sys Fork (RPid [1]), Sys Fork (RPid [2])],
                    procs := [?e1, ?e2]\<rparr>"
  let ?child1 = "pipe_child env_ok 3 4 STDOUT
      (execute_complex_command env_ok (Leaf (external [''cat'', ''f''])))"
  let ?child2 = "pipe_child env_ok 4 3 STDIN
      (execute_complex_command env_ok (Leaf (external [''wc'', ''-l''])))"
  have pipe: "sys_pipe env_ok shell0 = (Some (3, 4), ?P1)"
    by (simp add: eval_defs shell0_def env_ok_def Let_def)
  have c1: "?child1 (?P1\<lparr>pid := [1], trace := [], procs := []\<rparr>) =
      (Execed [''cat'', ''f''],
       shell0\<lparr>pid := [1],
            fds := [Some (Inherited 0), Some (PipeWrite [] 0), Some (Inherited 2), None, None],
            trace := pe_trace ?e1\<rparr>)"
    by (simp add: pipe_child_def execute_nonbuiltin_blocks execute_command_def external_def
        eval_defs shell0_def env_ok_def)
  have c2: "?child2 (?P2\<lparr>pid := [2], trace := [], procs := []\<rparr>) =
      (Execed [''wc'', ''-l''],
       shell0\<lparr>pid := [2],
            fds := [Some (PipeRead [] 0), Some (Inherited 1), Some (Inherited 2), None, None],
            trace := pe_trace ?e2\<rparr>)"
    by (simp add: pipe_child_def execute_nonbuiltin_blocks execute_command_def external_def
        eval_defs shell0_def env_ok_def)
  have "sys_fork env_ok ?child1 ?P1 = (Some [1], ?P2)"
    by (subst sys_fork_ok [where child = ?child1 and p = ?P1 and c = "[1]", OF _ _ c1]) (simp_all add: failing_def env_ok_def shell0_def log_def)
  note f1 = this
  have "sys_fork env_ok ?child2 ?P2 = (Some [2], ?P3)"
    by (subst sys_fork_ok [where child = ?child2 and p = ?P2 and c = "[2]", OF _ _ c2]) (simp_all add: failing_def env_ok_def shell0_def log_def)
  note f2 = this
  have par: "pipe_parent env_ok 3 4 [1] [2] ?P3 =
     Returns 0
       (shell0\<lparr>fds := [Some (Inherited 0), Some (Inherited 1), Some (Inherited 2), None, None],
               trace := [Sys Pipe (RPipe 3 4), Sys Fork (RPid [1]), Sys Fork (RPid [2]),
                         Sys (Close 3) ROk, Sys (Close 4) ROk,
                         Sys (Waitpid [1]) ROk, Sys (Waitpid [2]) ROk],
               procs := [?e1, ?e2]\<rparr>)"
    by (simp add: pipe_parent_def eval_defs shell0_def env_ok_def)
  show ?thesis
    by (simp only: dispatch_def two_stage_def command.case execute_complex_command_blocks
        pipe f1 f2 par prod.case option.case if_True refl)
qed

theorem parent_descriptors_unchanged_witness:
  "dispatch env_ok two_stage shell0 =
     Returns 0
       (shell0\<lparr>fds := [Some (Inherited 0), Some (Inherited 1), Some (Inherited 2), None, None],
               trace := [Sys Pipe (RPipe 3 4), Sys Fork (RPid [1]), Sys Fork (RPid [2]),
                         Sys (Close 3) ROk, Sys (Close 4) ROk,
                         Sys (Waitpid [1]) ROk, Sys (Waitpid [2]) ROk],
               procs := [\<lparr>pe_pid = [1],
                          pe_trace = [Sys (Close 3) ROk, Sys (Dup2 4 1) ROk, Sys (Close 4) ROk,
                                      Sys (Execvp (Some ''cat'') [''cat'', ''f'']) ROk],
                          pe_end = Execed [''cat'', ''f'']\<rparr>,
                         \<lparr>pe_pid = [2],
                          pe_trace = [Sys (Close 4) ROk, Sys (Dup2 3 0) ROk, Sys (Close 3) ROk,
                                      Sys (Execvp (Some ''wc'') [''wc'', ''-l'']) ROk],
                          pe_end = Execed [''wc'', ''-l'']\<rparr>]\<rparr>) \<and>
   fd_lookup [Some (Inherited 0), Some (Inherited 1), Some (Inherited 2), None, None] =
     fd_lookup (fds shell0)"
  using parent_descriptors_unchanged [OF two_stage_run] two_stage_run by simp

section \<open>Failures of the setup calls\<close>

lemma fatal_failures_weaken: "fatal_failures es None \<Longrightarrow> fatal_failures es e"
  by (induction es) (auto split: if_splits list.splits event.splits)

lemma pipe_child_contained:
  assumes run: "\<And>q0. contained q0 (run q0)"
    and child: "pipe_child env a b std run p0 = (e, q)"
    and init: "trace p0 = []" "procs p0 = []"
  shows "fatal_failures (trace q) (Some e) \<and> list_all healthy (procs q)"
proof (cases rule: pipe_child_cases [of env a b std run p0])
  case (dead q' es)
  with child init show ?thesis by (simp add: steps_def)
next
  case (run q3)
  from run(2) init have q3: "trace q3 = [Sys (Close a) ROk, Sys (Dup2 b std) ROk, Sys (Close b) ROk]"
    "procs q3 = []"
    by (simp_all add: steps_def)
  from assms(1) [of q3] obtain es new where
    c: "trace (final (run q3)) = trace q3 @ es" "procs (final (run q3)) = procs q3 @ new"
      "fatal_failures es (ending_of (run q3))" "list_all healthy new"
    unfolding contained_def by blast
  have clean: "\<not> list_ex setup_failure (trace q3)" by (simp add: q3)
  show ?thesis
  proof (cases "run q3")
    case (Returns v q')
    with run(1) child have eq: "e = Exited 0" "q = q'" by simp_all
    from c(3) Returns have "fatal_failures es (Some e)"
      by (simp add: fatal_failures_weaken)
    with c(1,2,4) Returns clean q3(2) show ?thesis
      by (simp add: eq fatal_failures_clean)
  next
    case (Halts e' q')
    with run(1) child have eq: "e = e'" "q = q'" by simp_all
    from c Halts clean q3(2) show ?thesis
      by (simp add: eq fatal_failures_clean)
  qed
qed

lemma execute_complex_command_contained:
  "contained p (execute_complex_command env cmd p)"
proof (induction cmd arbitrary: p)
  case (Leaf s)
  obtain e q where eq: "execute_nonbuiltin env s p = (e, q)"
    by (cases "execute_nonbuiltin env s p") auto
  then obtain es where "steps p es q" "fatal_failures es (Some e)"
    by (rule execute_nonbuiltin_summary)
  with eq show ?case
    by (auto simp: contained_def halt_def steps_def)
next
  case (Node oper cmd1 cmd2)
  show ?case
  proof (cases "oper = ''|''")
    case False
    then show ?thesis by (simp add: execute_complex_command_blocks contained_def)
  next
    case True
    note o = True
    show ?thesis
    proof (cases rule: node_cases [of env p cmd1 cmd2])
      case pipe_failed
      then show ?thesis
        by (auto simp: o contained_def intro!: exI [of _ "[Sys Pipe RFail, Perror ''pipe'']"])
    next
      case (fork1_failed r w p1)
      then show ?thesis
        by (auto simp: o contained_def steps_def
            intro!: exI [of _ "[Sys Pipe (RPipe r w), Sys Fork RFail, Perror ''fork'']"])
    next
      case (fork2_failed r w p1 c1 e1 q1 p2)
      from pipe_child_contained [OF Node.IH(1) fork2_failed(2)]
      have h1: "fatal_failures (trace q1) (Some e1)" "list_all healthy (procs q1)" by simp_all
      show ?thesis
        unfolding contained_def
        using fork2_failed h1
        by (intro exI [of _ "[Sys Pipe (RPipe r w), Sys Fork (RPid c1), Sys Fork RFail,
              Perror ''fork'']"]
            exI [of _ "\<lparr>pe_pid = c1, pe_trace = trace q1, pe_end = e1\<rparr> # procs q1"])
          (simp add: o steps_def healthy_def)
    next
      case (parent r w p1 c1 e1 q1 c2 e2 q2 p3)
      from pipe_child_contained [OF Node.IH(1) parent(8)]
      have h1: "fatal_failures (trace q1) (Some e1)" "list_all healthy (procs q1)" by simp_all
      from pipe_child_contained [OF Node.IH(2) parent(9)]
      have h2: "fatal_failures (trace q2) (Some e2)" "list_all healthy (procs q2)" by simp_all
      let ?new = "\<lparr>pe_pid = c1, pe_trace = trace q1, pe_end = e1\<rparr> # procs q1 @
         \<lparr>pe_pid = c2, pe_trace = trace q2, pe_end = e2\<rparr> # procs q2"
      let ?pre = "[Sys Pipe (RPipe r w), Sys Fork (RPid c1), Sys Fork (RPid c2)]"
      have new: "list_all healthy ?new" using h1 h2 by (simp add: healthy_def)
      show ?thesis
      proof (cases rule: pipe_parent_cases [of env r w c1 c2 p3])
        case (dead q es)
        show ?thesis
          unfolding contained_def
          using dead parent(10,11,15) new
          by (intro exI [of _ "?pre @ es"] exI [of _ ?new])
            (simp add: o steps_def fatal_failures_clean)
      next
        case (ok q)
        show ?thesis
          unfolding contained_def
          using ok parent(10,11,15) new
          by (intro exI [of _ "?pre @ [Sys (Close r) ROk, Sys (Close w) ROk,
                Sys (Waitpid c1) ROk, Sys (Waitpid c2) ROk]"] exI [of _ ?new])
            (simp add: o steps_def)
      qed
    qed
  qed
qed

text \<open>
  Claim C3. In \<^verbatim>\<open>execute_complex_command\<close>, in the process that runs it and in
  every process that descends from it, a failed \<^verbatim>\<open>pipe\<close>, \<^verbatim>\<open>fork\<close>,
  \<^verbatim>\<open>open\<close>, \<^verbatim>\<open>dup2\<close> or \<^verbatim>\<open>close\<close> is followed by one \<^verbatim>\<open>perror\<close> line
  and the process exits with status 1; the same holds for the child that
  \<^verbatim>\<open>execute_simple_command\<close> forks for an external program. When the
  \<^verbatim>\<open>fork\<close> of \<^verbatim>\<open>execute_simple_command\<close> itself fails, the interpreter writes
  the \<^verbatim>\<open>perror\<close> line and returns 0, and the loop of \<^verbatim>\<open>main\<close> goes on with the
  next command.
\<close>

theorem setup_failures_fatal:
  "(\<exists>es new. trace (final (execute_complex_command env cmd p)) = trace p @ es \<and>
      procs (final (execute_complex_command env cmd p)) = procs p @ new \<and>
      fatal_failures es (ending_of (execute_complex_command env cmd p)) \<and>
      list_all healthy new) \<and>
   (builtin s = BUILTIN_NONE \<longrightarrow>
      (\<exists>es new. trace (final (execute_simple_command env s p)) = trace p @ es \<and>
         procs (final (execute_simple_command env s p)) = procs p @ new \<and>
         list_all healthy new) \<and>
      (failing env p \<longrightarrow>
         execute_simple_command env s p = Returns 0 (perror ''fork'' (log (Sys Fork RFail) p)) \<and>
         main_loop env (Leaf s # rest) p =
           main_loop env rest (perror ''fork'' (log (Sys Fork RFail) p))))"
proof (intro conjI impI)
  show "\<exists>es new. trace (final (execute_complex_command env cmd p)) = trace p @ es \<and>
      procs (final (execute_complex_command env cmd p)) = procs p @ new \<and>
      fatal_failures es (ending_of (execute_complex_command env cmd p)) \<and>
      list_all healthy new"
    using execute_complex_command_contained [of p env cmd] by (simp add: contained_def)
next
  assume b: "builtin s = BUILTIN_NONE"
  then show "\<exists>es new. trace (final (execute_simple_command env s p)) = trace p @ es \<and>
         procs (final (execute_simple_command env s p)) = procs p @ new \<and>
         list_all healthy new"
  proof (cases rule: execute_simple_command_external [of s env p])
    case nofork
    then show ?thesis
      by (intro exI [of _ "[Sys Fork RFail, Perror ''fork'']"] exI [of _ "[]"]) simp
  next
    case (forked c e q p1 es)
    from forked(3) obtain es' where "steps (p\<lparr>pid := c, trace := [], procs := []\<rparr>) es' q"
      "fatal_failures es' (Some e)"
      by (rule execute_nonbuiltin_summary)
    then have "healthy \<lparr>pe_pid = c, pe_trace = trace q, pe_end = e\<rparr>"
      by (simp add: healthy_def steps_def)
    with forked show ?thesis
      by (intro exI [of _ "Sys Fork (RPid c) # es"]
          exI [of _ "[\<lparr>pe_pid = c, pe_trace = trace q, pe_end = e\<rparr>]"]) simp
  qed
next
  assume b: "builtin s = BUILTIN_NONE" and f: "failing env p"
  then show 1: "execute_simple_command env s p =
      Returns 0 (perror ''fork'' (log (Sys Fork RFail) p))"
    by (cases rule: execute_simple_command_external [of s env p]) simp_all
  then show "main_loop env (Leaf s # rest) p =
           main_loop env rest (perror ''fork'' (log (Sys Fork RFail) p))"
    by (simp add: dispatch_def)
qed

lemma fork_fails_run:
  "execute_simple_command env_fork_fails (external [''ls'']) shell0 =
     Returns 0 (shell0\<lparr>trace := [Sys Fork RFail, Perror ''fork'']\<rparr>)"
  by (simp add: execute_simple_command_def external_def sys_fork_def failing_def
      env_fork_fails_def shell0_def log_def perror_def)

text \<open>The \<^verbatim>\<open>fork\<close> for \<^verbatim>\<open>ls\<close> fails: the interpreter does not end, and the
  loop runs the next line, \<^verbatim>\<open>exit\<close>, which makes \<^verbatim>\<open>main\<close> return 0.\<close>

theorem setup_failures_fatal_counterexample:
  "ending_of (dispatch env_fork_fails (Leaf (external [''ls''])) shell0) = None \<and>
   trace (final (dispatch env_fork_fails (Leaf (external [''ls''])) shell0)) =
     [Sys Fork RFail, Perror ''fork''] \<and>
   main_loop env_fork_fails [Leaf (external [''ls'']), Leaf exit_command] shell0 =
     Inr (Returns 0 (shell0\<lparr>trace := [Sys Fork RFail, Perror ''fork'']\<rparr>))"
  by (simp add: dispatch_def fork_fails_run)
    (simp add: exit_command_def execute_simple_command_def)

theorem setup_failures_fatal_witness:
  "execute_simple_command env_fork_fails (external [''ls'']) shell0 =
     Returns 0 (shell0\<lparr>trace := [Sys Fork RFail, Perror ''fork'']\<rparr>) \<and>
   main_loop env_fork_fails [Leaf (external [''ls''])] shell0 =
     Inl (shell0\<lparr>trace := [Sys Fork RFail, Perror ''fork'']\<rparr>)"
  using setup_failures_fatal [of env_fork_fails "Leaf (external [''ls''])" shell0
      "external [''ls'']" "[]"]
  by (simp add: external_def failing_def env_fork_fails_def shell0_def log_def perror_def)

section \<open>Processes and pipes of a pipeline\<close>

lemma pipe_child_ok:
  assumes "\<not> fails env (pid p) (length (trace p))"
    "\<not> fails env (pid p) (Suc (length (trace p)))"
    "\<not> fails env (pid p) (Suc (Suc (length (trace p))))"
    "fd_lookup (fds p) a \<noteq> None" "fd_lookup (fds p) b \<noteq> None" "a \<noteq> b"
  obtains q3 where "pipe_child env a b std run p = then_exit 0 (run q3)"
      "steps p [Sys (Close a) ROk, Sys (Dup2 b std) ROk, Sys (Close b) ROk] q3"
proof -
  let ?t1 = "fd_set (fds p) a None"
  let ?p1 = "log (Sys (Close a) ROk) (p\<lparr>fds := ?t1\<rparr>)"
  let ?t2 = "fd_set ?t1 std (fd_lookup ?t1 b)"
  let ?p2 = "log (Sys (Dup2 b std) ROk) (?p1\<lparr>fds := ?t2\<rparr>)"
  let ?p3 = "log (Sys (Close b) ROk) (?p2\<lparr>fds := fd_set ?t2 b None\<rparr>)"
  have 1: "sys_close env a p = (True, ?p1)"
    using assms by (simp add: sys_close_def failing_def)
  have 2: "sys_dup2 env b std ?p1 = (True, ?p2)"
    using assms by (simp add: sys_dup2_def failing_def fd_lookup_set)
  have 3: "sys_close env b ?p2 = (True, ?p3)"
    using assms by (auto simp: sys_close_def failing_def fd_lookup_set)
  have "pipe_child env a b std run p = then_exit 0 (run ?p3)"
    using 1 2 3 by (simp add: pipe_child_def)
  then show ?thesis
    by (rule that [of ?p3]) (simp_all add: steps_def)
qed

lemma pipe_parent_ok:
  assumes "\<not> fails env (pid p) (length (trace p))"
    "\<not> fails env (pid p) (Suc (length (trace p)))"
    "\<not> fails env (pid p) (Suc (Suc (length (trace p))))"
    "\<not> fails env (pid p) (Suc (Suc (Suc (length (trace p)))))"
    "fd_lookup (fds p) r \<noteq> None" "fd_lookup (fds p) w \<noteq> None" "r \<noteq> w"
  obtains q where "pipe_parent env r w c1 c2 p = Returns 0 q"
      "steps p [Sys (Close r) ROk, Sys (Close w) ROk, Sys (Waitpid c1) ROk, Sys (Waitpid c2) ROk] q"
      "fds q = fd_set (fd_set (fds p) r None) w None"
proof -
  let ?p4 = "log (Sys (Close r) ROk) (p\<lparr>fds := fd_set (fds p) r None\<rparr>)"
  let ?p5 = "log (Sys (Close w) ROk) (?p4\<lparr>fds := fd_set (fds ?p4) w None\<rparr>)"
  let ?p6 = "log (Sys (Waitpid c1) ROk) ?p5"
  let ?p7 = "log (Sys (Waitpid c2) ROk) ?p6"
  have 1: "sys_close env r p = (True, ?p4)"
    using assms by (simp add: sys_close_def failing_def)
  have 2: "sys_close env w ?p4 = (True, ?p5)"
    using assms by (simp add: sys_close_def failing_def fd_lookup_set)
  have 3: "sys_waitpid env c1 ?p5 = (True, ?p6)"
    using assms by (simp add: sys_waitpid_def failing_def)
  have 4: "sys_waitpid env c2 ?p6 = (True, ?p7)"
    using assms by (simp add: sys_waitpid_def failing_def)
  have "pipe_parent env r w c1 c2 p = Returns 0 ?p7"
    using 1 2 3 4 by (simp add: pipe_parent_def)
  then show ?thesis
    by (rule that [of ?p7]) (simp_all add: steps_def)
qed

lemma leaves_nodes: "leaves cmd = Suc (nodes cmd)"
  by (induction cmd) simp_all

lemma length_leaf_commands: "length (leaf_commands cmd) = leaves cmd"
  by (induction cmd) simp_all

lemma wiring_succeeds_Node:
  assumes "wiring_succeeds env (Node oper cmd1 cmd2) p"
  defines "n \<equiv> length (trace p)"
  shows "\<not> fails env (pid p) n" "\<not> fails env (pid p) (Suc n)"
    "\<not> fails env (pid p) (Suc (Suc n))" "\<not> fails env (pid p) (Suc (Suc (Suc n)))"
    "\<not> fails env (pid p) (Suc (Suc (Suc (Suc n))))"
    "\<not> fails env (pid p) (Suc (Suc (Suc (Suc (Suc n)))))"
    "\<not> fails env (pid p) (Suc (Suc (Suc (Suc (Suc (Suc n))))))"
    "\<not> fails env (pid p @ [Suc n]) 0" "\<not> fails env (pid p @ [Suc n]) (Suc 0)"
    "\<not> fails env (pid p @ [Suc n]) (Suc (Suc 0))"
    "\<not> fails env (pid p @ [Suc (Suc n)]) 0" "\<not> fails env (pid p @ [Suc (Suc n)]) (Suc 0)"
    "\<not> fails env (pid p @ [Suc (Suc n)]) (Suc (Suc 0))"
    "\<And>q. pid q = pid p @ [Suc n] \<Longrightarrow> length (trace q) = 3 \<Longrightarrow> wiring_succeeds env cmd1 q"
    "\<And>q. pid q = pid p @ [Suc (Suc n)] \<Longrightarrow> length (trace q) = 3 \<Longrightarrow> wiring_succeeds env cmd2 q"
  using assms by (simp_all add: wiring_succeeds_def numeral_eq_Suc)

lemma pipe_child_accounted:
  assumes run: "\<And>q0. wiring_succeeds env cmd q0 \<Longrightarrow>
      accounted env cmd q0 (execute_complex_command env cmd q0)"
    and child: "pipe_child env a b std (execute_complex_command env cmd) p0 = (e, q)"
    and init: "trace p0 = []" "procs p0 = []"
    and fds: "fd_lookup (fds p0) a \<noteq> None" "fd_lookup (fds p0) b \<noteq> None" "a \<noteq> b"
    and ok: "\<not> fails env (pid p0) 0" "\<not> fails env (pid p0) (Suc 0)"
      "\<not> fails env (pid p0) (Suc (Suc 0))"
    and w: "\<And>q. pid q = pid p0 \<Longrightarrow> length (trace q) = 3 \<Longrightarrow> wiring_succeeds env cmd q"
  shows "length (procs q) = 2 * nodes cmd \<and>
     pipes_total (trace q) (procs q) = nodes cmd \<and> reaps (trace q) \<and>
     list_all (\<lambda>en. reaps (pe_trace en)) (procs q) \<and>
     list_all (\<lambda>en. forked (pe_trace en) = [] \<or> length (forked (pe_trace en)) = 2)
       (\<lparr>pe_pid = pid p0, pe_trace = trace q, pe_end = e\<rparr> # procs q) \<and>
     list_all2 (runs_leaf env) (leaf_commands cmd)
       (filter (\<lambda>en. forked (pe_trace en) = [])
          (\<lparr>pe_pid = pid p0, pe_trace = trace q, pe_end = e\<rparr> # procs q))"
proof -
  from ok init have "\<not> fails env (pid p0) (length (trace p0))"
    "\<not> fails env (pid p0) (Suc (length (trace p0)))"
    "\<not> fails env (pid p0) (Suc (Suc (length (trace p0))))"
    by simp_all
  from pipe_child_ok [OF this fds, of std "execute_complex_command env cmd"]
  obtain q3 where q3: "pipe_child env a b std (execute_complex_command env cmd) p0 =
      then_exit 0 (execute_complex_command env cmd q3)"
    "steps p0 [Sys (Close a) ROk, Sys (Dup2 b std) ROk, Sys (Close b) ROk] q3"
    by blast
  let ?res = "execute_complex_command env cmd q3"
  from q3(2) init have s: "trace q3 = [Sys (Close a) ROk, Sys (Dup2 b std) ROk, Sys (Close b) ROk]"
    "procs q3 = []" "pid q3 = pid p0"
    by (simp_all add: steps_def)
  have "wiring_succeeds env cmd q3"
    using s by (intro w) simp_all
  from run [OF this] obtain es new where
    a: "trace (final ?res) = trace q3 @ es" "procs (final ?res) = procs q3 @ new"
      "length new = 2 * nodes cmd" "pipes_total es new = nodes cmd" "reaps es"
      "list_all (\<lambda>en. reaps (pe_trace en)) new"
      "list_all (\<lambda>en. forked (pe_trace en) = [] \<or> length (forked (pe_trace en)) = 2) new"
    and b: "case cmd of
           Leaf s \<Rightarrow> forked es = [] \<and> ?res = halt (execute_nonbuiltin env s q3)
         | Node oper cmd1 cmd2 \<Rightarrow>
             ?res = Returns 0 (final ?res) \<and> length (forked es) = 2 \<and>
             list_all2 (runs_leaf env) (leaf_commands cmd)
               (filter (\<lambda>en. forked (pe_trace en) = []) new)"
    unfolding accounted_def by blast
  have q: "q = final ?res" and e: "(e, q) = then_exit 0 ?res"
    using child q3(1) by (cases ?res; auto)+
  have f: "forked (trace q) = forked es"
    using a(1) s(1) by (simp add: q forked_append)
  have "list_all2 (runs_leaf env) (leaf_commands cmd)
       (filter (\<lambda>en. forked (pe_trace en) = [])
          (\<lparr>pe_pid = pid p0, pe_trace = trace q, pe_end = e\<rparr> # procs q))"
  proof (cases cmd)
    case (Leaf s')
    with b have l: "forked es = []" "?res = halt (execute_nonbuiltin env s' q3)" by simp_all
    obtain e' q' where x: "execute_nonbuiltin env s' q3 = (e', q')"
      by (cases "execute_nonbuiltin env s' q3") auto
    with l(2) e have "e' = e" "q' = q" by (simp_all add: halt_def)
    with x s have "runs_leaf env s' \<lparr>pe_pid = pid p0, pe_trace = trace q, pe_end = e\<rparr>"
      unfolding runs_leaf_def by (intro exI [of _ q3] exI [of _ q] exI [of _ a] exI [of _ b] exI [of _ std]) simp
    with a(2,3) s(2) l(1) f Leaf show ?thesis by (simp add: q)
  next
    case (Node oper cmd1 cmd2)
    with b have "length (forked es) = 2" "list_all2 (runs_leaf env) (leaf_commands cmd)
               (filter (\<lambda>en. forked (pe_trace en) = []) new)" by simp_all
    with a(2) s(2) f show ?thesis by (auto simp: q)
  qed
  moreover have "length (procs q) = 2 * nodes cmd" "pipes_total (trace q) (procs q) = nodes cmd"
    "reaps (trace q)" "list_all (\<lambda>en. reaps (pe_trace en)) (procs q)"
    using a s by (auto simp: q pipes_total_def reaps_def)
  moreover have "forked es = [] \<or> length (forked es) = 2"
    using b by (cases cmd) simp_all
  then have "list_all (\<lambda>en. forked (pe_trace en) = [] \<or> length (forked (pe_trace en)) = 2)
       (\<lparr>pe_pid = pid p0, pe_trace = trace q, pe_end = e\<rparr> # procs q)"
    using a(2,7) s(2) f by (simp add: q)
  ultimately show ?thesis by simp
qed

lemma execute_complex_command_accounted:
  assumes "piped cmd" "wiring_succeeds env cmd p"
  shows "accounted env cmd p (execute_complex_command env cmd p)"
  using assms
proof (induction cmd arbitrary: p)
  case (Leaf s)
  obtain e q where eq: "execute_nonbuiltin env s p = (e, q)"
    by (cases "execute_nonbuiltin env s p") auto
  then obtain es where "steps p es q" "forked es = []" "pipes es = []" "waited es = []"
    by (rule execute_nonbuiltin_summary)
  with eq show ?case
    unfolding accounted_def
    by (intro exI [of _ es] exI [of _ "[]"])
      (simp add: halt_def steps_def pipes_total_def reaps_def)
next
  case (Node oper cmd1 cmd2)
  then have o: "oper = ''|''" and p1: "piped cmd1" and p2: "piped cmd2" by simp_all
  note IH1 = Node.IH(1) [OF p1] and IH2 = Node.IH(2) [OF p2]
  note W = wiring_succeeds_Node [OF Node.prems(2)]
  show ?case
  proof (cases rule: node_cases [of env p cmd1 cmd2])
    case pipe_failed
    with W(1) show ?thesis by (simp add: failing_def)
  next
    case (fork1_failed r w p1)
    with W(2) show ?thesis by (simp add: failing_def steps_def)
  next
    case (fork2_failed r w p1 c1 e1 q1 p2)
    with W(3) show ?thesis by (simp add: failing_def steps_def)
  next
    case (parent r w p1 c1 e1 q1 c2 e2 q2 p3)
    have c1: "length (procs q1) = 2 * nodes cmd1 \<and>
       pipes_total (trace q1) (procs q1) = nodes cmd1 \<and> reaps (trace q1) \<and>
       list_all (\<lambda>en. reaps (pe_trace en)) (procs q1) \<and>
       list_all (\<lambda>en. forked (pe_trace en) = [] \<or> length (forked (pe_trace en)) = 2)
         (\<lparr>pe_pid = c1, pe_trace = trace q1, pe_end = e1\<rparr> # procs q1) \<and>
       list_all2 (runs_leaf env) (leaf_commands cmd1)
         (filter (\<lambda>en. forked (pe_trace en) = [])
            (\<lparr>pe_pid = c1, pe_trace = trace q1, pe_end = e1\<rparr> # procs q1))"
      using pipe_child_accounted [OF IH1 parent(8)] parent(2,5,6,16) W(8,9,10,14)
      by simp
    have c2: "length (procs q2) = 2 * nodes cmd2 \<and>
       pipes_total (trace q2) (procs q2) = nodes cmd2 \<and> reaps (trace q2) \<and>
       list_all (\<lambda>en. reaps (pe_trace en)) (procs q2) \<and>
       list_all (\<lambda>en. forked (pe_trace en) = [] \<or> length (forked (pe_trace en)) = 2)
         (\<lparr>pe_pid = c2, pe_trace = trace q2, pe_end = e2\<rparr> # procs q2) \<and>
       list_all2 (runs_leaf env) (leaf_commands cmd2)
         (filter (\<lambda>en. forked (pe_trace en) = [])
            (\<lparr>pe_pid = c2, pe_trace = trace q2, pe_end = e2\<rparr> # procs q2))"
      using pipe_child_accounted [OF IH2 parent(9)] parent(2,5,6,17) W(11,12,13,15)
      by simp
    from parent(5,6,14) have "fd_lookup (fds p3) r \<noteq> None" "fd_lookup (fds p3) w \<noteq> None"
      by simp_all
    moreover from W(4-7) parent(10,12) have "\<not> fails env (pid p3) (length (trace p3))"
      "\<not> fails env (pid p3) (Suc (length (trace p3)))"
      "\<not> fails env (pid p3) (Suc (Suc (length (trace p3))))"
      "\<not> fails env (pid p3) (Suc (Suc (Suc (length (trace p3)))))"
      by simp_all
    ultimately obtain q where q: "pipe_parent env r w c1 c2 p3 = Returns 0 q"
      "steps p3 [Sys (Close r) ROk, Sys (Close w) ROk, Sys (Waitpid c1) ROk, Sys (Waitpid c2) ROk] q"
      using pipe_parent_ok [of env p3 r w c1 c2] parent(2) by blast
    let ?es = "[Sys Pipe (RPipe r w), Sys Fork (RPid c1), Sys Fork (RPid c2),
        Sys (Close r) ROk, Sys (Close w) ROk, Sys (Waitpid c1) ROk, Sys (Waitpid c2) ROk]"
    let ?new = "\<lparr>pe_pid = c1, pe_trace = trace q1, pe_end = e1\<rparr> # procs q1 @
         \<lparr>pe_pid = c2, pe_trace = trace q2, pe_end = e2\<rparr> # procs q2"
    have "?new = (\<lparr>pe_pid = c1, pe_trace = trace q1, pe_end = e1\<rparr> # procs q1) @
         (\<lparr>pe_pid = c2, pe_trace = trace q2, pe_end = e2\<rparr> # procs q2)"
      by simp
    then have l: "list_all2 (runs_leaf env) (leaf_commands (Node ''|'' cmd1 cmd2))
        (filter (\<lambda>en. forked (pe_trace en) = []) ?new)"
      using c1 c2 by (simp only: filter_append leaf_commands.simps list_all2_appendI)
    have 1: "trace q = trace p @ ?es" "procs q = procs p @ ?new"
      using q(2) parent(10,11) by (simp_all add: steps_def)
    have 2: "length ?new = 2 * nodes (Node ''|'' cmd1 cmd2)"
      using c1 c2 by simp
    have 3: "pipes_total ?es ?new = nodes (Node ''|'' cmd1 cmd2)"
      using c1 c2 by (simp add: pipes_total_def)
    have 4: "reaps ?es" "length (forked ?es) = 2"
      by (simp_all add: reaps_def)
    have 5: "list_all (\<lambda>en. reaps (pe_trace en)) ?new"
      using c1 c2 by simp
    have 6: "list_all (\<lambda>en. forked (pe_trace en) = [] \<or> length (forked (pe_trace en)) = 2) ?new"
      using c1 c2 by simp
    have r: "execute_complex_command env (Node ''|'' cmd1 cmd2) p = Returns 0 q"
      using parent(15) q(1) by simp
    show ?thesis
      unfolding accounted_def o r
      by (intro exI [of _ ?es] exI [of _ ?new])
        (simp only: final.simps command.case 1 2 3 4 5 6 l simp_thms)
  qed
qed

lemma wiring_env_ok: "wiring_succeeds env_ok cmd p"
  by (simp add: wiring_succeeds_def env_ok_def list_all_iff)

lemma three_stage_run:
  "execute_complex_command env_exec_fails three_stage shell0 =
     Returns 0
       (shell0\<lparr>fds := [Some (Inherited 0), Some (Inherited 1), Some (Inherited 2), None, None],
               trace := [Sys Pipe (RPipe 3 4), Sys Fork (RPid [1]), Sys Fork (RPid [2]),
                         Sys (Close 3) ROk, Sys (Close 4) ROk,
                         Sys (Waitpid [1]) ROk, Sys (Waitpid [2]) ROk],
               procs := [\<lparr>pe_pid = [1],
                          pe_trace = [Sys (Close 3) ROk, Sys (Dup2 4 1) ROk, Sys (Close 4) ROk,
                                      Sys (Execvp (Some ''cat'') [''cat'', ''f'']) RFail,
                                      Perror ''cat''],
                          pe_end = Exited 1\<rparr>,
                         \<lparr>pe_pid = [2],
                          pe_trace = [Sys (Close 4) ROk, Sys (Dup2 3 0) ROk, Sys (Close 3) ROk,
                                      Sys Pipe (RPipe 3 4), Sys Fork (RPid [2, 4]),
                                      Sys Fork (RPid [2, 5]), Sys (Close 3) ROk,
                                      Sys (Close 4) ROk, Sys (Waitpid [2, 4]) ROk,
                                      Sys (Waitpid [2, 5]) ROk],
                          pe_end = Exited 0\<rparr>,
                         \<lparr>pe_pid = [2, 4],
                          pe_trace = [Sys (Close 3) ROk, Sys (Dup2 4 1) ROk, Sys (Close 4) ROk,
                                      Sys (Execvp (Some ''sort'') [''sort'']) ROk],
                          pe_end = Execed [''sort'']\<rparr>,
                         \<lparr>pe_pid = [2, 5],
                          pe_trace = [Sys (Close 4) ROk, Sys (Dup2 3 0) ROk, Sys (Close 3) ROk,
                                      Sys (Execvp (Some ''wc'') [''wc'', ''-l'']) ROk],
                          pe_end = Execed [''wc'', ''-l'']\<rparr>]\<rparr>)"
proof -
  let ?env = env_exec_fails
  let ?t = "[Some (Inherited 0), Some (Inherited 1), Some (Inherited 2),
             Some (PipeRead [] 0), Some (PipeWrite [] 0)]"
  let ?t2 = "[Some (PipeRead [] 0), Some (Inherited 1), Some (Inherited 2), None, None]"
  let ?u = "[Some (PipeRead [] 0), Some (Inherited 1), Some (Inherited 2),
             Some (PipeRead [2] 3), Some (PipeWrite [2] 3)]"
  let ?e1 = "\<lparr>pe_pid = [1],
                pe_trace = [Sys (Close 3) ROk, Sys (Dup2 4 1) ROk, Sys (Close 4) ROk,
                            Sys (Execvp (Some ''cat'') [''cat'', ''f'']) RFail, Perror ''cat''],
                pe_end = Exited 1\<rparr>"
  let ?tr2 = "[Sys (Close 4) ROk, Sys (Dup2 3 0) ROk, Sys (Close 3) ROk]"
  let ?e2 = "\<lparr>pe_pid = [2],
                pe_trace = ?tr2 @ [Sys Pipe (RPipe 3 4), Sys Fork (RPid [2, 4]),
                            Sys Fork (RPid [2, 5]), Sys (Close 3) ROk,
                            Sys (Close 4) ROk, Sys (Waitpid [2, 4]) ROk,
                            Sys (Waitpid [2, 5]) ROk],
                pe_end = Exited 0\<rparr>"
  let ?e24 = "\<lparr>pe_pid = [2, 4],
                pe_trace = [Sys (Close 3) ROk, Sys (Dup2 4 1) ROk, Sys (Close 4) ROk,
                            Sys (Execvp (Some ''sort'') [''sort'']) ROk],
                pe_end = Execed [''sort'']\<rparr>"
  let ?e25 = "\<lparr>pe_pid = [2, 5],
                pe_trace = [Sys (Close 4) ROk, Sys (Dup2 3 0) ROk, Sys (Close 3) ROk,
                            Sys (Execvp (Some ''wc'') [''wc'', ''-l'']) ROk],
                pe_end = Execed [''wc'', ''-l'']\<rparr>"
  let ?inner = "Node ''|'' (Leaf (external [''sort''])) (Leaf (external [''wc'', ''-l'']))"
  let ?P1 = "shell0\<lparr>fds := ?t, trace := [Sys Pipe (RPipe 3 4)]\<rparr>"
  let ?P2 = "shell0\<lparr>fds := ?t, trace := [Sys Pipe (RPipe 3 4), Sys Fork (RPid [1])],
                    procs := [?e1]\<rparr>"
  let ?P3 = "shell0\<lparr>fds := ?t,
                    trace := [Sys Pipe (RPipe 3 4), Sys Fork (RPid [1]), Sys Fork (RPid [2])],
                    procs := [?e1, ?e2, ?e24, ?e25]\<rparr>"
  let ?Q0 = "shell0\<lparr>pid := [2], fds := ?t2, trace := ?tr2\<rparr>"
  let ?Q1 = "shell0\<lparr>pid := [2], fds := ?u, trace := ?tr2 @ [Sys Pipe (RPipe 3 4)]\<rparr>"
  let ?Q2 = "shell0\<lparr>pid := [2], fds := ?u,
                    trace := ?tr2 @ [Sys Pipe (RPipe 3 4), Sys Fork (RPid [2, 4])],
                    procs := [?e24]\<rparr>"
  let ?Q3 = "shell0\<lparr>pid := [2], fds := ?u,
                    trace := ?tr2 @ [Sys Pipe (RPipe 3 4), Sys Fork (RPid [2, 4]),
                                     Sys Fork (RPid [2, 5])],
                    procs := [?e24, ?e25]\<rparr>"
  let ?Q4 = "shell0\<lparr>pid := [2], fds := ?t2, trace := pe_trace ?e2, procs := [?e24, ?e25]\<rparr>"
  let ?child1 = "pipe_child ?env 3 4 STDOUT
      (execute_complex_command ?env (Leaf (external [''cat'', ''f''])))"
  let ?child2 = "pipe_child ?env 4 3 STDIN (execute_complex_command ?env ?inner)"
  let ?child24 = "pipe_child ?env 3 4 STDOUT
      (execute_complex_command ?env (Leaf (external [''sort''])))"
  let ?child25 = "pipe_child ?env 4 3 STDIN
      (execute_complex_command ?env (Leaf (external [''wc'', ''-l''])))"
  have pipe: "sys_pipe ?env shell0 = (Some (3, 4), ?P1)"
    by (simp add: eval_defs shell0_def env_exec_fails_def Let_def)
  have c1: "?child1 (?P1\<lparr>pid := [1], trace := [], procs := []\<rparr>) =
      (Exited 1,
       shell0\<lparr>pid := [1],
            fds := [Some (Inherited 0), Some (PipeWrite [] 0), Some (Inherited 2), None, None],
            trace := pe_trace ?e1\<rparr>)"
    by (simp add: pipe_child_def execute_nonbuiltin_blocks execute_command_def external_def
        eval_defs shell0_def env_exec_fails_def)
  have ipipe: "sys_pipe ?env ?Q0 = (Some (3, 4), ?Q1)"
    by (simp add: eval_defs shell0_def env_exec_fails_def Let_def)
  have c24: "?child24 (?Q1\<lparr>pid := [2, 4], trace := [], procs := []\<rparr>) =
      (Execed [''sort''],
       shell0\<lparr>pid := [2, 4],
            fds := [Some (PipeRead [] 0), Some (PipeWrite [2] 3), Some (Inherited 2), None, None],
            trace := pe_trace ?e24\<rparr>)"
    by (simp add: pipe_child_def execute_nonbuiltin_blocks execute_command_def external_def
        eval_defs shell0_def env_exec_fails_def)
  have c25: "?child25 (?Q2\<lparr>pid := [2, 5], trace := [], procs := []\<rparr>) =
      (Execed [''wc'', ''-l''],
       shell0\<lparr>pid := [2, 5],
            fds := [Some (PipeRead [2] 3), Some (Inherited 1), Some (Inherited 2), None, None],
            trace := pe_trace ?e25\<rparr>)"
    by (simp add: pipe_child_def execute_nonbuiltin_blocks execute_command_def external_def
        eval_defs shell0_def env_exec_fails_def)
  have "sys_fork ?env ?child24 ?Q1 = (Some [2, 4], ?Q2)"
    by (subst sys_fork_ok [where child = ?child24 and p = ?Q1 and c = "[2, 4]", OF _ _ c24])
      (simp_all add: failing_def env_exec_fails_def shell0_def log_def)
  note f24 = this
  have "sys_fork ?env ?child25 ?Q2 = (Some [2, 5], ?Q3)"
    by (subst sys_fork_ok [where child = ?child25 and p = ?Q2 and c = "[2, 5]", OF _ _ c25])
      (simp_all add: failing_def env_exec_fails_def shell0_def log_def)
  note f25 = this
  have ipar: "pipe_parent ?env 3 4 [2, 4] [2, 5] ?Q3 = Returns 0 ?Q4"
    by (simp add: pipe_parent_def eval_defs shell0_def env_exec_fails_def)
  have inner: "execute_complex_command ?env ?inner ?Q0 = Returns 0 ?Q4"
    by (simp only: execute_complex_command_blocks ipipe f24 f25 ipar prod.case option.case
        if_True refl)
  have pre2: "pipe_child ?env 4 3 STDIN run (?P2\<lparr>pid := [2], trace := [], procs := []\<rparr>) =
      then_exit 0 (run ?Q0)" for run
    by (simp add: pipe_child_def eval_defs shell0_def env_exec_fails_def)
  have c2: "?child2 (?P2\<lparr>pid := [2], trace := [], procs := []\<rparr>) = (Exited 0, ?Q4)"
    by (simp only: pre2 inner then_exit.simps)
  have "sys_fork ?env ?child1 ?P1 = (Some [1], ?P2)"
    by (subst sys_fork_ok [where child = ?child1 and p = ?P1 and c = "[1]", OF _ _ c1])
      (simp_all add: failing_def env_exec_fails_def shell0_def log_def)
  note f1 = this
  have "sys_fork ?env ?child2 ?P2 = (Some [2], ?P3)"
    by (subst sys_fork_ok [where child = ?child2 and p = ?P2 and c = "[2]", OF _ _ c2])
      (simp_all add: failing_def env_exec_fails_def shell0_def log_def)
  note f2 = this
  have par: "pipe_parent ?env 3 4 [1] [2] ?P3 =
     Returns 0
       (shell0\<lparr>fds := [Some (Inherited 0), Some (Inherited 1), Some (Inherited 2), None, None],
               trace := [Sys Pipe (RPipe 3 4), Sys Fork (RPid [1]), Sys Fork (RPid [2]),
                         Sys (Close 3) ROk, Sys (Close 4) ROk,
                         Sys (Waitpid [1]) ROk, Sys (Waitpid [2]) ROk],
               procs := [?e1, ?e2, ?e24, ?e25]\<rparr>)"
    by (simp add: pipe_parent_def eval_defs shell0_def env_exec_fails_def)
  have "execute_complex_command ?env three_stage shell0 =
     Returns 0
       (shell0\<lparr>fds := [Some (Inherited 0), Some (Inherited 1), Some (Inherited 2), None, None],
               trace := [Sys Pipe (RPipe 3 4), Sys Fork (RPid [1]), Sys Fork (RPid [2]),
                         Sys (Close 3) ROk, Sys (Close 4) ROk,
                         Sys (Waitpid [1]) ROk, Sys (Waitpid [2]) ROk],
               procs := [?e1, ?e2, ?e24, ?e25]\<rparr>)"
    by (simp only: three_stage_def execute_complex_command_blocks
        pipe f1 f2 par prod.case option.case if_True refl)
  then show ?thesis by simp
qed

text \<open>
  Claim C1. On a tree of pipe operators with \<open>N \<ge> 2\<close> simple commands, when none of
  the calls that wire the pipeline fails (\<^verbatim>\<open>pipe\<close>, \<^verbatim>\<open>fork\<close>, \<^verbatim>\<open>close\<close>,
  \<^verbatim>\<open>dup2\<close> and \<^verbatim>\<open>waitpid\<close> in \<^verbatim>\<open>execute_complex_command\<close>; the calls of
  \<^verbatim>\<open>execute_nonbuiltin\<close> may fail), \<^verbatim>\<open>execute_complex_command\<close> returns 0
  after \<open>N - 1\<close> pipes were created and \<open>2 * (N - 1)\<close> processes were forked in all.
  \<open>N\<close> of them fork nothing: they are, in the order of the commands, processes that
  ran \<^verbatim>\<open>execute_nonbuiltin\<close> on the \<open>N\<close> simple commands. Each of the others
  forked two children. The process that returns forked two children and waited for
  both, and every process has waited for exactly its own children before it ended.
\<close>

theorem pipeline_processes:
  assumes "piped (Node oper cmd1 cmd2)"
    and "wiring_succeeds env (Node oper cmd1 cmd2) p"
  shows "\<exists>q es new. execute_complex_command env (Node oper cmd1 cmd2) p = Returns 0 q \<and>
       trace q = trace p @ es \<and> procs q = procs p @ new \<and>
       pipes_total es new = leaves (Node oper cmd1 cmd2) - 1 \<and>
       length new = 2 * (leaves (Node oper cmd1 cmd2) - 1) \<and>
       leaf_processes new = leaves (Node oper cmd1 cmd2) \<and>
       list_all2 (runs_leaf env) (leaf_commands (Node oper cmd1 cmd2))
         (filter (\<lambda>en. forked (pe_trace en) = []) new) \<and>
       reaps es \<and> length (forked es) = 2 \<and> list_all (\<lambda>en. reaps (pe_trace en)) new \<and>
       list_all (\<lambda>en. forked (pe_trace en) = [] \<or> length (forked (pe_trace en)) = 2) new"
proof -
  let ?cmd = "Node oper cmd1 cmd2"
  let ?res = "execute_complex_command env ?cmd p"
  from execute_complex_command_accounted [OF assms]
  obtain es new where a: "trace (final ?res) = trace p @ es" "procs (final ?res) = procs p @ new"
    "length new = 2 * nodes ?cmd" "pipes_total es new = nodes ?cmd" "reaps es"
    "list_all (\<lambda>en. reaps (pe_trace en)) new"
    "list_all (\<lambda>en. forked (pe_trace en) = [] \<or> length (forked (pe_trace en)) = 2) new"
    "?res = Returns 0 (final ?res)" "length (forked es) = 2"
    "list_all2 (runs_leaf env) (leaf_commands ?cmd) (filter (\<lambda>en. forked (pe_trace en) = []) new)"
    unfolding accounted_def by auto
  have n: "leaves ?cmd - 1 = nodes ?cmd" by (simp add: leaves_nodes)
  from a(10) have "leaf_processes new = leaves ?cmd"
    unfolding leaf_processes_def
    by (simp only: list_all2_lengthD [symmetric] length_leaf_commands)
  with a show ?thesis
    unfolding n
    by (intro exI [of _ "final ?res"] exI [of _ es] exI [of _ new]) simp
qed

text \<open>Three commands: four processes are forked, one more than there are commands. And
  when \<^verbatim>\<open>pipe\<close> fails for two commands, no pipe is created, nothing is forked and
  the process does not return.\<close>

theorem pipeline_processes_counterexample:
  "leaves three_stage = 3 \<and>
   returned (dispatch env_ok three_stage shell0) = Some 0 \<and>
   length (procs (final (dispatch env_ok three_stage shell0))) = 4 \<and>
   leaves two_stage = 2 \<and>
   dispatch env_fork_fails two_stage shell0 =
     Halts (Exited 1) (shell0\<lparr>trace := [Sys Pipe RFail, Perror ''pipe'']\<rparr>)"
proof -
  let ?res = "execute_complex_command env_ok three_stage shell0"
  have p: "piped three_stage" by (simp add: three_stage_def)
  have n: "nodes three_stage = 2" by (simp add: three_stage_def)
  from execute_complex_command_accounted [OF p wiring_env_ok, of shell0]
  obtain new where "procs (final ?res) = procs shell0 @ new" "length new = 2 * nodes three_stage"
    "?res = Returns 0 (final ?res)"
    unfolding accounted_def three_stage_def by auto
  then have "length (procs (final ?res)) = 4" "returned ?res = Some 0"
    by (simp_all add: n shell0_def) (metis returned.simps(1))
  moreover have "dispatch env_ok three_stage shell0 = ?res"
    by (simp add: dispatch_def three_stage_def)
  moreover have "leaves three_stage = 3" by (simp add: three_stage_def)
  moreover have "leaves two_stage = 2" by (simp add: two_stage_def)
  moreover have "dispatch env_fork_fails two_stage shell0 =
     Halts (Exited 1) (shell0\<lparr>trace := [Sys Pipe RFail, Perror ''pipe'']\<rparr>)"
    by (simp add: dispatch_def two_stage_def execute_complex_command_blocks eval_defs
        env_fork_fails_def shell0_def)
  ultimately show ?thesis by simp
qed

text \<open>Three commands, of which the first cannot be executed: two pipes, four
  processes, three of them for the commands.\<close>

theorem pipeline_processes_witness:
  "piped three_stage \<and> wiring_succeeds env_exec_fails three_stage shell0 \<and>
   leaves three_stage = 3 \<and>
   returned (execute_complex_command env_exec_fails three_stage shell0) = Some 0 \<and>
   map pe_pid (procs (final (execute_complex_command env_exec_fails three_stage shell0))) =
     [ [1], [2], [2, 4], [2, 5] ] \<and>
   map pe_end (procs (final (execute_complex_command env_exec_fails three_stage shell0))) =
     [Exited 1, Exited 0, Execed [''sort''], Execed [''wc'', ''-l'']] \<and>
   pipes_total (trace (final (execute_complex_command env_exec_fails three_stage shell0)))
     (procs (final (execute_complex_command env_exec_fails three_stage shell0))) = 2 \<and>
   leaf_processes (procs (final (execute_complex_command env_exec_fails three_stage shell0))) = 3 \<and>
   waited (trace (final (execute_complex_command env_exec_fails three_stage shell0))) =
     [ [1], [2] ]"
proof -
  have p: "piped (Node ''|'' (Leaf (external [''cat'', ''f'']))
       (Node ''|'' (Leaf (external [''sort''])) (Leaf (external [''wc'', ''-l'']))))"
    by simp
  have w: "wiring_succeeds env_exec_fails (Node ''|'' (Leaf (external [''cat'', ''f'']))
       (Node ''|'' (Leaf (external [''sort''])) (Leaf (external [''wc'', ''-l''])))) shell0"
    by (simp add: wiring_succeeds_def shell0_def env_exec_fails_def)
  from pipeline_processes [OF p w] p w
  show ?thesis
    unfolding three_stage_def [symmetric] three_stage_run
    by (simp add: three_stage_def pipes_total_def leaf_processes_def)
qed

section \<open>Builtins inside a pipeline\<close>





end
